theory Spec2Isabelle
  imports Main "HOL-Library.List_Lexorder" "HOL-Library.Product_Lexorder" "HOL-Library.Word"
begin

section \<open>The HTTP boundary of the two fetch scripts\<close>

text \<open>
  Both fetch scripts (\<^verbatim>\<open>crop_data.py\<close>, \<^verbatim>\<open>rainfall.py\<close>) page through
  \<^verbatim>\<open>https://api.data.gov.in/resource/<id>\<close> with \<^verbatim>\<open>requests.get\<close>. A request is
  identified by the resource, the filter pairs, the page size and the offset; the constant
  parameters \<^verbatim>\<open>api-key\<close> and \<^verbatim>\<open>format=json\<close> are the same in every request and are left out.
\<close>

record request =
  resource_id :: string
  filters :: "(string \<times> string) list"
  limit :: nat
  offset :: nat

text \<open>
  What \<^verbatim>\<open>response.json()\<close> gives: a JSON object, represented by the value of
  \<^verbatim>\<open>data.get("records", [])\<close>, or a JSON string. Other JSON shapes and bodies that are not
  JSON are outside the model.
\<close>

datatype 'r body = JObject "'r list" | JString string

text \<open>
  What one pass through the \<^verbatim>\<open>try\<close> block meets. \<open>Responded st b\<close>: the server answered
  with HTTP status \<open>st\<close> and body \<open>b\<close>. \<open>RequestException ro\<close>: \<^verbatim>\<open>requests.get\<close> itself raised
  a \<^verbatim>\<open>requests.exceptions.RequestException\<close> (timeout, connection error, the library's own
  SSL error, ...) whose \<^verbatim>\<open>e.response\<close> is \<^verbatim>\<open>None\<close> (\<open>ro = None\<close>) or a response with status
  \<open>st\<close> (\<open>ro = Some st\<close>). \<open>SSLError\<close>: a bare \<^verbatim>\<open>ssl.SSLError\<close>. \<open>OtherException\<close>: any other
  \<^verbatim>\<open>Exception\<close>.
\<close>

datatype 'r reply =
    Responded nat "'r body"
  | RequestException "nat option"
  | SSLError
  | OtherException

text \<open>
  The observable trace of a run: every HTTP exchange with its reply, and every
  \<^verbatim>\<open>time.sleep\<close>, in milliseconds. The server is a function of the history so far and of the
  request, so that it may answer the same request differently at different times.
\<close>

datatype 'r event = Call request "'r reply" | Sleep nat

type_synonym 'r server = "'r event list \<Rightarrow> request \<Rightarrow> 'r reply"

text \<open>
  \<^verbatim>\<open>Response.raise_for_status()\<close> raises \<^verbatim>\<open>HTTPError(response=self)\<close> exactly for the
  statuses 400..599, and \<^verbatim>\<open>Response.__bool__\<close> returns \<^verbatim>\<open>self.ok\<close>, which is false exactly
  when \<^verbatim>\<open>raise_for_status\<close> raises.
\<close>

definition raises_for_status :: "nat \<Rightarrow> bool" where
  "raises_for_status st \<longleftrightarrow> 400 \<le> st \<and> st < 600"

definition response_bool :: "nat \<Rightarrow> bool" where
  "response_bool st \<longleftrightarrow> \<not> raises_for_status st"

text \<open>
  The body of the \<^verbatim>\<open>try\<close>: \<^verbatim>\<open>requests.get\<close>, \<^verbatim>\<open>raise_for_status\<close>, \<^verbatim>\<open>json\<close>. The result is
  the data, or the exception that reaches the \<^verbatim>\<open>except\<close> clauses.
\<close>

datatype 'r tried =
    Data "'r body"
  | ExcRequest "nat option"
  | ExcSSL
  | ExcOther

fun try_get :: "'r reply \<Rightarrow> 'r tried" where
  "try_get (Responded st b) = (if raises_for_status st then ExcRequest (Some st) else Data b)"
| "try_get (RequestException ro) = ExcRequest ro"
| "try_get SSLError = ExcSSL"
| "try_get OtherException = ExcOther"

text \<open>What a fetch function hands to its caller; \<open>Raised\<close> is an exception nobody caught.\<close>

datatype 'r fetched = Records "'r list" | FATAL_ERROR | Raised

text \<open>How the retry loop of one page ends.\<close>

datatype 'r attempt = Got "'r body" | Exhausted | Unexpected | Fatal | Uncaught

section \<open>\<^verbatim>\<open>crop_data.py\<close>: \<^verbatim>\<open>fetch_all_data\<close>\<close>

text \<open>
  The \<^verbatim>\<open>for current_retry in range(max_retries)\<close> loop with its \<^verbatim>\<open>else\<close>: the argument counts
  the attempts that are left. A \<^verbatim>\<open>RequestException\<close> or \<^verbatim>\<open>SSLError\<close> sleeps three seconds
  and goes round again. The handler of any other exception prints \<^verbatim>\<open>response.text\<close> before it
  returns what the function has: the local variable \<^verbatim>\<open>response\<close> is bound once some
  \<^verbatim>\<open>requests.get\<close> of this call has returned, and while it is not, the handler itself raises
  \<^verbatim>\<open>UnboundLocalError\<close>, which nobody catches. The flag \<open>bound\<close> says whether \<^verbatim>\<open>response\<close> is
  bound.
\<close>

fun responded :: "'r reply \<Rightarrow> bool" where
  "responded (Responded st b) = True"
| "responded rp = False"

fun retry_crop ::
  "bool \<Rightarrow> 'r server \<Rightarrow> request \<Rightarrow> nat \<Rightarrow> 'r event list \<Rightarrow> 'r attempt \<times> 'r event list" where
  "retry_crop bound srv rq 0 t = (Exhausted, t)"
| "retry_crop bound srv rq (Suc n) t =
     (let rp = srv t rq; t1 = t @ [Call rq rp]; bound1 = (bound \<or> responded rp) in
      case try_get rp of
        Data d \<Rightarrow> (Got d, t1)
      | ExcRequest ro \<Rightarrow> retry_crop bound1 srv rq n (t1 @ [Sleep 3000])
      | ExcSSL \<Rightarrow> retry_crop bound1 srv rq n (t1 @ [Sleep 3000])
      | ExcOther \<Rightarrow> if bound1 then (Unexpected, t1) else (Uncaught, t1))"

text \<open>
  The \<^verbatim>\<open>while True\<close> loop. \<^verbatim>\<open>data.get\<close> on a JSON string raises \<^verbatim>\<open>AttributeError\<close> outside
  the \<^verbatim>\<open>try\<close>. After a page has been received \<^verbatim>\<open>response\<close> is bound. The loop need not end
  (a server may send full pages for ever), so the result is an option and \<open>None\<close> is "does not
  return".
\<close>

partial_function (option) crop_loop ::
  "bool \<Rightarrow> 'r server \<Rightarrow> string \<Rightarrow> nat \<Rightarrow> nat \<Rightarrow> nat \<Rightarrow> 'r list \<Rightarrow> 'r event list
     \<Rightarrow> ('r fetched \<times> 'r event list) option" where
  "crop_loop bound srv rid lim max_retries off all_records t =
     (case retry_crop bound srv \<lparr>resource_id = rid, filters = [], limit = lim, offset = off\<rparr> max_retries t of
        (Got (JObject records), t') \<Rightarrow>
          if records = [] then Some (Records all_records, t')
          else if length records < lim then Some (Records (all_records @ records), t')
          else crop_loop True srv rid lim max_retries (off + lim) (all_records @ records) t'
      | (Got (JString s), t') \<Rightarrow> Some (Raised, t')
      | (Exhausted, t') \<Rightarrow> Some (Records all_records, t')
      | (Unexpected, t') \<Rightarrow> Some (Records all_records, t')
      | (_, t') \<Rightarrow> Some (Raised, t'))"

text \<open>The last case is the uncaught \<^verbatim>\<open>UnboundLocalError\<close>. At the start of \<^verbatim>\<open>fetch_all_data\<close>
  the variable \<^verbatim>\<open>response\<close> is not bound.\<close>

definition fetch_all_data :: "'r server \<Rightarrow> string \<Rightarrow> 'r event list \<Rightarrow> ('r fetched \<times> 'r event list) option" where
  "fetch_all_data srv rid t = crop_loop False srv rid 1000 5 0 [] t"

section \<open>\<^verbatim>\<open>rainfall.py\<close>: \<^verbatim>\<open>fetch_paginated_data\<close> and \<^verbatim>\<open>main\<close>\<close>

text \<open>
  The test \<^verbatim>\<open>e.response and e.response.status_code == 403\<close>: \<^verbatim>\<open>None\<close> is falsy, and a
  response object is tested through \<^verbatim>\<open>Response.__bool__\<close>.
\<close>

fun is_forbidden :: "nat option \<Rightarrow> bool" where
  "is_forbidden None = False"
| "is_forbidden (Some st) = (response_bool st \<and> st = 403)"

text \<open>
  The retry loop of \<^verbatim>\<open>rainfall.py\<close> catches \<^verbatim>\<open>RequestException\<close> only; \<^verbatim>\<open>SSLError\<close> is
  imported there and not used, so a bare \<^verbatim>\<open>ssl.SSLError\<close> and every other exception leave the
  function.
\<close>

fun retry_rain :: "'r server \<Rightarrow> request \<Rightarrow> nat \<Rightarrow> 'r event list \<Rightarrow> 'r attempt \<times> 'r event list" where
  "retry_rain srv rq 0 t = (Exhausted, t)"
| "retry_rain srv rq (Suc n) t =
     (let rp = srv t rq; t1 = t @ [Call rq rp] in
      case try_get rp of
        Data d \<Rightarrow> (Got d, t1)
      | ExcRequest ro \<Rightarrow>
          if is_forbidden ro then (Fatal, t1)
          else retry_rain srv rq n (t1 @ [Sleep 3000])
      | ExcSSL \<Rightarrow> (Uncaught, t1)
      | ExcOther \<Rightarrow> (Uncaught, t1))"

partial_function (option) rain_loop ::
  "'r server \<Rightarrow> string \<Rightarrow> (string \<times> string) list \<Rightarrow> nat \<Rightarrow> nat \<Rightarrow> nat \<Rightarrow> 'r list \<Rightarrow> 'r event list
     \<Rightarrow> ('r fetched \<times> 'r event list) option" where
  "rain_loop srv rid flt lim max_retries off all_records t =
     (case retry_rain srv \<lparr>resource_id = rid, filters = flt, limit = lim, offset = off\<rparr> max_retries t of
        (Got (JObject records), t') \<Rightarrow>
          if records = [] then Some (Records all_records, t')
          else if length records < lim then Some (Records (all_records @ records), t')
          else rain_loop srv rid flt lim max_retries (off + lim) (all_records @ records) t'
      | (Got (JString s), t') \<Rightarrow>
          if s = ''FATAL_ERROR'' then Some (FATAL_ERROR, t') else Some (Raised, t')
      | (Exhausted, t') \<Rightarrow> Some (Records all_records, t')
      | (Fatal, t') \<Rightarrow> Some (FATAL_ERROR, t')
      | (_, t') \<Rightarrow> Some (Raised, t'))"

definition fetch_paginated_data ::
  "'r server \<Rightarrow> string \<Rightarrow> (string \<times> string) list \<Rightarrow> 'r event list \<Rightarrow> ('r fetched \<times> 'r event list) option" where
  "fetch_paginated_data srv rid flt t = rain_loop srv rid flt 1000 5 0 [] t"

definition RAIN_RESOURCE_ID :: string where
  "RAIN_RESOURCE_ID = ''6c05cd1b-ed59-40c2-bc31-e314f39c6971''"

definition RAIN_OUTPUT_FILE :: string where
  "RAIN_OUTPUT_FILE = ''raw_rainfall_data.csv''"

definition YEARS_TO_FETCH :: "nat list" where
  "YEARS_TO_FETCH = [2018 ..< 2026]"

definition STATES_LIST :: "string list" where
  "STATES_LIST =
    [''Uttar Pradesh'', ''Madhya Pradesh'', ''Karnataka'', ''Bihar'', ''Assam'', ''Odisha'',
     ''Tamil Nadu'', ''Maharashtra'', ''Rajasthan'', ''Chhattisgarh'', ''Andhra Pradesh'',
     ''West Bengal'', ''Gujarat'', ''Haryana'', ''Telangana'', ''Uttarakhand'', ''Kerala'',
     ''Nagaland'', ''Punjab'', ''Meghalaya'', ''Arunachal Pradesh'', ''Himachal Pradesh'',
     ''Jammu and Kashmir'', ''Tripura'', ''Manipur'', ''Jharkhand'', ''Mizoram'',
     ''Puducherry'', ''Sikkim'', ''Dadra and Nagar Haveli'', ''Goa'',
     ''Andaman and Nicobar Islands'', ''Chandigarh'']"

text \<open>\<^verbatim>\<open>str(year)\<close> for a natural number: its decimal digits.\<close>

fun str_nat :: "nat \<Rightarrow> string" where
  "str_nat n =
     (if n < 10 then [char_of (48 + n)] else str_nat (n div 10) @ [char_of (48 + n mod 10)])"

definition query_filters :: "nat \<Rightarrow> string \<Rightarrow> (string \<times> string) list" where
  "query_filters year state =
     [(''Year'', str_nat year), (''State'', state), (''Agency_name'', ''NRSC VIC MODEL'')]"

text \<open>
  The two nested \<^verbatim>\<open>for\<close> loops of \<^verbatim>\<open>main\<close>, over the (year, state) pairs in order, years
  outermost. The fatal signal ends \<^verbatim>\<open>main\<close> at once; after every other query the script
  sleeps half a second.
\<close>

fun query_loop ::
  "'r server \<Rightarrow> (nat \<times> string) list \<Rightarrow> 'r list \<Rightarrow> 'r event list \<Rightarrow> ('r fetched \<times> 'r event list) option" where
  "query_loop srv [] all_rainfall_records t = Some (Records all_rainfall_records, t)"
| "query_loop srv ((year, state) # rest) all_rainfall_records t =
     (case fetch_paginated_data srv RAIN_RESOURCE_ID (query_filters year state) t of
        None \<Rightarrow> None
      | Some (Records records_for_query, t') \<Rightarrow>
          query_loop srv rest (all_rainfall_records @ records_for_query) (t' @ [Sleep 500])
      | Some (FATAL_ERROR, t') \<Rightarrow> Some (FATAL_ERROR, t')
      | Some (Raised, t') \<Rightarrow> Some (Raised, t'))"

text \<open>
  \<^verbatim>\<open>main\<close> of \<^verbatim>\<open>rainfall.py\<close> on a file system that maps a path to the records written
  there: the output file is written only when the loops ran to their end with at least one
  record; after the fatal signal or an uncaught exception nothing is written. The guard on
  the placeholder API key at the top of \<^verbatim>\<open>main\<close> is false for the key in the file. The result
  is the file system and the trace.
\<close>

definition rainfall_main ::
  "'r server \<Rightarrow> (string \<rightharpoonup> 'r list) \<Rightarrow> 'r event list \<Rightarrow> ((string \<rightharpoonup> 'r list) \<times> 'r event list) option" where
  "rainfall_main srv files t =
     (case query_loop srv (List.product YEARS_TO_FETCH STATES_LIST) [] t of
        None \<Rightarrow> None
      | Some (Records all_rainfall_records, t') \<Rightarrow>
          if all_rainfall_records \<noteq> []
          then Some (files(RAIN_OUTPUT_FILE \<mapsto> all_rainfall_records), t')
          else Some (files, t')
      | Some (_, t') \<Rightarrow> Some (files, t'))"

section \<open>\<^verbatim>\<open>db_creator.py\<close>: the raw tables\<close>

text \<open>
  A table is the list of its rows, in file order, as \<^verbatim>\<open>pd.read_csv\<close> delivers it; the columns
  the script does not use are left out. A Python string is the list of its code points, and
  \<open>py\<close> turns an ASCII literal into one. A field of a text column is a string or missing
  (\<open>None\<close>, pandas' NaN). A field of a year column is a value of the column's type \<open>'y\<close> or
  missing. A field of a column the script treats as numeric is a number of the column's type
  \<open>'n\<close>, a text or missing.
\<close>

type_synonym pystr = "nat list"

definition py :: "string \<Rightarrow> pystr" where
  "py s = map of_char s"

datatype 'n cell = Num 'n | Str pystr | NaN

record ('y, 'n) raw_crop_row =
  state_name :: "pystr option"
  district_name :: "pystr option"
  crop_year :: "'y option"
  season_raw :: "pystr option"
  crop_raw :: "pystr option"
  area_raw :: "'n cell"
  production_raw :: "'n cell"

record ('y, 'n) raw_rain_row =
  State :: "pystr option"
  District :: "pystr option"
  Year :: "'y option"
  Avg_rainfall :: "'n cell"

text \<open>The cleaned rows: the columns of the two database tables.\<close>

record ('y, 'n) production_row =
  state :: "pystr option"
  district :: "pystr option"
  year :: "'y option"
  season :: "pystr option"
  crop :: "pystr option"
  area_hectares :: "'n option"
  production_tonnes :: "'n option"
  source_name :: string
  source_url :: string

record ('y, 'n) rainfall_row =
  rain_state :: pystr
  rain_district :: pystr
  rain_year :: 'y
  annual_rainfall_mm :: 'n
  rain_source_name :: string
  rain_source_url :: string

definition CROP_FILE :: string where "CROP_FILE = ''raw_crop_data.csv''"
definition RAIN_FILE :: string where "RAIN_FILE = ''raw_rainfall_data.csv''"
definition DB_FILE :: string where "DB_FILE = ''data.gov.db''"

definition CROP_API_URL :: string where
  "CROP_API_URL = ''https.api.data.gov.in/resource/35be999b-0208-4354-b557-f6ca9a5355de''"

definition RAIN_API_URL :: string where
  "RAIN_API_URL = ''https.api.data.gov.in/resource/6c05cd1b-ed59-40c2-bc31-e314f39c6971''"

subsection \<open>What is left to pandas\<close>

text \<open>
  The repository pins no version of pandas, and whether a numeric column is \<^verbatim>\<open>int64\<close> or
  \<^verbatim>\<open>float64\<close> is decided by its content. What depends on either is a parameter \<open>pd\<close> of the
  functions below, and nothing is assumed about it:
  \<^item> \<open>na_text\<close>: what \<^verbatim>\<open>.astype(str)\<close> makes of a missing field, the text \<^verbatim>\<open>nan\<close> up to
    pandas 2 and still missing from pandas 3 on;
  \<^item> \<open>isspace\<close>: the code points that \<^verbatim>\<open>.str.strip()\<close> removes at both ends;
  \<^item> \<open>parse\<close>: \<^verbatim>\<open>pd.to_numeric(..., errors='coerce')\<close> on one text, \<open>None\<close> when the text is no
    number;
  \<^item> the running sum of one group in \<^verbatim>\<open>groupby(...).sum()\<close>: its state at the start, the step
    that takes in the next value of the group, and the value read off at the end. In an
    \<^verbatim>\<open>int64\<close> column the state is the sum so far, which wraps around at 64 bits; in a
    \<^verbatim>\<open>float64\<close> column it is the rounded sum with its compensation term.
\<close>

record ('n, 's) pandas =
  na_text :: "pystr option"
  isspace :: "nat \<Rightarrow> bool"
  parse :: "pystr \<Rightarrow> 'n option"
  sum_init :: 's
  sum_step :: "'s \<Rightarrow> 'n \<Rightarrow> 's"
  sum_value :: "'s \<Rightarrow> 'n"

subsection \<open>The column operations\<close>

text \<open>\<^verbatim>\<open>.astype(str)\<close> on a text column.\<close>

fun astype_str :: "('n, 's) pandas \<Rightarrow> pystr option \<Rightarrow> pystr option" where
  "astype_str pd None = na_text pd"
| "astype_str pd (Some s) = Some s"

text \<open>\<^verbatim>\<open>.str.strip()\<close>: whitespace is removed at both ends; a missing field stays missing.\<close>

definition strip :: "('n, 's) pandas \<Rightarrow> pystr \<Rightarrow> pystr" where
  "strip pd s = rev (dropWhile (isspace pd) (rev (dropWhile (isspace pd) s)))"

definition clean_str :: "('n, 's) pandas \<Rightarrow> pystr option \<Rightarrow> pystr option" where
  "clean_str pd c = map_option (strip pd) (astype_str pd c)"

text \<open>\<^verbatim>\<open>pd.to_numeric(..., errors='coerce')\<close> on one field: what is no number becomes missing.\<close>

fun to_numeric :: "('n, 's) pandas \<Rightarrow> 'n cell \<Rightarrow> 'n option" where
  "to_numeric pd (Num v) = Some v"
| "to_numeric pd (Str s) = parse pd s"
| "to_numeric pd NaN = None"

text \<open>\<^verbatim>\<open>.replace('NR', 0)\<close>: a field that is exactly the text \<^verbatim>\<open>NR\<close> becomes the number 0.\<close>

definition replace_NR :: "'n::zero cell \<Rightarrow> 'n cell" where
  "replace_NR c = (if c = Str (py ''NR'') then Num 0 else c)"

text \<open>\<^verbatim>\<open>.fillna(0)\<close>.\<close>

fun fillna0 :: "'n::zero option \<Rightarrow> 'n" where
  "fillna0 None = 0"
| "fillna0 (Some v) = v"

subsection \<open>\<^verbatim>\<open>process_crop_data\<close>\<close>

text \<open>Steps 1 to 3 and 5 on one row: rename, strip the text columns, coerce the numeric ones, add
  the two provenance columns, keep the final columns.\<close>

definition clean_crop_row :: "('n, 's) pandas \<Rightarrow> ('y, 'n) raw_crop_row \<Rightarrow> ('y, 'n) production_row" where
  "clean_crop_row pd r =
     \<lparr>state = clean_str pd (state_name r),
      district = clean_str pd (district_name r),
      year = crop_year r,
      season = clean_str pd (season_raw r),
      crop = clean_str pd (crop_raw r),
      area_hectares = to_numeric pd (area_raw r),
      production_tonnes = to_numeric pd (production_raw r),
      source_name = ''District-wise, season-wise crop production statistics'',
      source_url = CROP_API_URL\<rparr>"

text \<open>
  The body of \<^verbatim>\<open>process_crop_data\<close> after the file is read: the clean table and
  \<^verbatim>\<open>dropped_count\<close>. Step 4 is \<^verbatim>\<open>dropna(subset=['production_tonnes'])\<close>.
\<close>

definition process_crop_rows ::
  "('n, 's) pandas \<Rightarrow> ('y, 'n) raw_crop_row list \<Rightarrow> ('y, 'n) production_row list \<times> int" where
  "process_crop_rows pd df =
     (let cleaned = map (clean_crop_row pd) df;
          original_count = int (length cleaned);
          kept = filter (\<lambda>r. production_tonnes r \<noteq> None) cleaned;
          dropped_count = original_count - int (length kept)
      in (kept, dropped_count))"

subsection \<open>\<^verbatim>\<open>process_rainfall_data\<close>\<close>

text \<open>Step 3 on one field: replace the sentinel, coerce, fill.\<close>

definition rainfall_mm :: "('n::zero, 's) pandas \<Rightarrow> 'n cell \<Rightarrow> 'n" where
  "rainfall_mm pd c = fillna0 (to_numeric pd (replace_NR c))"

text \<open>
  The group key of a row, \<^verbatim>\<open>['state', 'district', 'year']\<close>: the cleaned text columns and
  \<^verbatim>\<open>year\<close> as read. \<^verbatim>\<open>groupby\<close> (with its default \<^verbatim>\<open>dropna=True\<close>) leaves out every row with
  a missing key column: such a row has no key.
\<close>

type_synonym 'y group_key = "pystr \<times> pystr \<times> 'y"

definition key_of :: "('n, 's) pandas \<Rightarrow> ('y, 'n) raw_rain_row \<Rightarrow> 'y group_key option" where
  "key_of pd r =
     (case clean_str pd (State r) of None \<Rightarrow> None
      | Some s \<Rightarrow>
         (case clean_str pd (District r) of None \<Rightarrow> None
          | Some d \<Rightarrow>
             (case Year r of None \<Rightarrow> None
              | Some y \<Rightarrow> Some (s, d, y))))"

text \<open>
  \<^verbatim>\<open>groupby(...).sum()\<close>: one pass over the rows in order, each value taken into the running
  sum of its group (a new group starts from the initial state); the groups come out sorted by
  key, each with the value of its running sum.
\<close>

fun add_to_group ::
  "('n, 's) pandas \<Rightarrow> 'y group_key \<Rightarrow> 'n \<Rightarrow> ('y group_key \<times> 's) list \<Rightarrow> ('y group_key \<times> 's) list" where
  "add_to_group pd k v [] = [(k, sum_step pd (sum_init pd) v)]"
| "add_to_group pd k v ((k', s) # gs) =
     (if k = k' then (k', sum_step pd s v) # gs else (k', s) # add_to_group pd k v gs)"

fun accumulate ::
  "('n, 's) pandas \<Rightarrow> ('y group_key option \<times> 'n) list \<Rightarrow> ('y group_key \<times> 's) list
     \<Rightarrow> ('y group_key \<times> 's) list" where
  "accumulate pd [] gs = gs"
| "accumulate pd ((None, v) # rows) gs = accumulate pd rows gs"
| "accumulate pd ((Some k, v) # rows) gs = accumulate pd rows (add_to_group pd k v gs)"

definition groupby_sum ::
  "('n, 's) pandas \<Rightarrow> ('y::linorder group_key option \<times> 'n) list \<Rightarrow> ('y group_key \<times> 'n) list" where
  "groupby_sum pd rows =
     map (\<lambda>g. (fst g, sum_value pd (snd g))) (sort_key fst (accumulate pd rows []))"

fun annual_row :: "'y group_key \<times> 'n \<Rightarrow> ('y, 'n) rainfall_row" where
  "annual_row ((s, d, y), v) =
     \<lparr>rain_state = s, rain_district = d, rain_year = y, annual_rainfall_mm = v,
      rain_source_name = ''Daily District-wise Rainfall Data (Aggregated to Annual)'',
      rain_source_url = RAIN_API_URL\<rparr>"

definition process_rainfall_rows ::
  "('n::zero, 's) pandas \<Rightarrow> ('y::linorder, 'n) raw_rain_row list \<Rightarrow> ('y, 'n) rainfall_row list" where
  "process_rainfall_rows pd df =
     map annual_row (groupby_sum pd (map (\<lambda>r. (key_of pd r, rainfall_mm pd (Avg_rainfall r))) df))"

subsection \<open>Files, the database and \<^verbatim>\<open>main\<close>\<close>

text \<open>
  The part of the world the script touches: the CSV files that exist (by path, with the table
  each holds), the SQLite files that exist (by path, with their tables by name), and the
  messages printed that report a failure or an outcome (progress messages are left out).
  Errors of SQLite itself are not modelled.
\<close>

datatype ('y, 'n) sql_table =
    ProductionTable "('y, 'n) production_row list"
  | RainfallTable "('y, 'n) rainfall_row list"

type_synonym ('y, 'n) database = "string \<rightharpoonup> ('y, 'n) sql_table"

datatype msg =
    NotFound string
  | DroppedRows int
  | RemovedOldDatabase string
  | BuildComplete
  | BuildFailed

record ('y, 'n) world =
  crop_csv :: "string \<rightharpoonup> ('y, 'n) raw_crop_row list"
  rain_csv :: "string \<rightharpoonup> ('y, 'n) raw_rain_row list"
  databases :: "string \<rightharpoonup> ('y, 'n) database"
  console :: "msg list"

definition print :: "msg \<Rightarrow> ('y, 'n) world \<Rightarrow> ('y, 'n) world" where
  "print m w = w\<lparr>console := console w @ [m]\<rparr>"

text \<open>\<^verbatim>\<open>FileNotFoundError\<close> is caught: the message is printed and the result is \<^verbatim>\<open>None\<close>.\<close>

definition process_crop_data ::
  "('n, 's) pandas \<Rightarrow> string \<Rightarrow> ('y, 'n) world \<Rightarrow> ('y, 'n) production_row list option \<times> ('y, 'n) world" where
  "process_crop_data pd filepath w =
     (case crop_csv w filepath of
        None \<Rightarrow> (None, print (NotFound filepath) w)
      | Some df \<Rightarrow>
          (let (df_clean, dropped_count) = process_crop_rows pd df
           in (Some df_clean, if dropped_count > 0 then print (DroppedRows dropped_count) w else w)))"

definition process_rainfall_data ::
  "('n::zero, 's) pandas \<Rightarrow> string \<Rightarrow> ('y::linorder, 'n) world
     \<Rightarrow> ('y, 'n) rainfall_row list option \<times> ('y, 'n) world" where
  "process_rainfall_data pd filepath w =
     (case rain_csv w filepath of
        None \<Rightarrow> (None, print (NotFound filepath) w)
      | Some df \<Rightarrow> (Some (process_rainfall_rows pd df), w))"

text \<open>\<^verbatim>\<open>os.remove\<close> behind \<^verbatim>\<open>os.path.exists\<close>, \<^verbatim>\<open>sqlite3.connect\<close> (which creates an empty
  database where no file is) and \<^verbatim>\<open>to_sql(..., if_exists="replace")\<close>.\<close>

definition remove_if_exists :: "string \<Rightarrow> ('y, 'n) world \<Rightarrow> ('y, 'n) world" where
  "remove_if_exists path w =
     (if databases w path \<noteq> None
      then print (RemovedOldDatabase path) (w\<lparr>databases := (databases w)(path := None)\<rparr>)
      else w)"

definition connect :: "string \<Rightarrow> ('y, 'n) world \<Rightarrow> ('y, 'n) world" where
  "connect path w =
     (if databases w path = None then w\<lparr>databases := (databases w)(path \<mapsto> Map.empty)\<rparr> else w)"

definition to_sql :: "string \<Rightarrow> string \<Rightarrow> ('y, 'n) sql_table \<Rightarrow> ('y, 'n) world \<Rightarrow> ('y, 'n) world" where
  "to_sql path name tbl w =
     (case databases w path of
        None \<Rightarrow> w
      | Some db \<Rightarrow> w\<lparr>databases := (databases w)(path \<mapsto> db(name \<mapsto> tbl))\<rparr>)"

definition db_creator_main :: "('n::zero, 's) pandas \<Rightarrow> ('y::linorder, 'n) world \<Rightarrow> ('y, 'n) world" where
  "db_creator_main pd w =
     (let (df_crop_clean, w1) = process_crop_data pd CROP_FILE w;
          (df_rain_clean, w2) = process_rainfall_data pd RAIN_FILE w1
      in case (df_crop_clean, df_rain_clean) of
           (Some crop_tbl, Some rain_tbl) \<Rightarrow>
             print BuildComplete
               (to_sql DB_FILE ''climate_rainfall'' (RainfallTable rain_tbl)
                 (to_sql DB_FILE ''agriculture_production'' (ProductionTable crop_tbl)
                   (connect DB_FILE (remove_if_exists DB_FILE w2))))
         | _ \<Rightarrow> print BuildFailed w2)"

subsection \<open>Instances of the pandas parameter\<close>

text \<open>
  Python's \<^verbatim>\<open>str.strip()\<close>, which \<^verbatim>\<open>.str.strip()\<close> applies to the strings of an object column,
  removes the code points for which \<^verbatim>\<open>str.isspace\<close> holds.
\<close>

definition python_isspace :: "nat \<Rightarrow> bool" where
  "python_isspace n \<longleftrightarrow>
     (9 \<le> n \<and> n \<le> 13) \<or> (28 \<le> n \<and> n \<le> 32) \<or> n = 133 \<or> n = 160 \<or> n = 5760
     \<or> (8192 \<le> n \<and> n \<le> 8202) \<or> n = 8232 \<or> n = 8233 \<or> n = 8239 \<or> n = 8287 \<or> n = 12288"

text \<open>
  A column whose running sum is the addition of a monoid, started at 0: an \<^verbatim>\<open>int64\<close> column,
  whose numbers are the 64-bit words with their wrap-around addition, or a column of numbers
  that are added exactly.
\<close>

definition additive ::
  "pystr option \<Rightarrow> (nat \<Rightarrow> bool) \<Rightarrow> (pystr \<Rightarrow> 'n option) \<Rightarrow> ('n::monoid_add, 'n) pandas" where
  "additive na ws p =
     \<lparr>na_text = na, isspace = ws, parse = p, sum_init = 0, sum_step = (+), sum_value = (\<lambda>s. s)\<rparr>"

text \<open>A conversion for the examples: unsigned decimal integers of at most 18 digits, nothing
  else.\<close>

definition is_digit :: "nat \<Rightarrow> bool" where
  "is_digit n \<longleftrightarrow> 48 \<le> n \<and> n \<le> 57"

definition parse_digits :: "pystr \<Rightarrow> 64 word option" where
  "parse_digits s =
     (if s \<noteq> [] \<and> length s \<le> 18 \<and> list_all is_digit s
      then Some (foldl (\<lambda>a c. 10 * a + of_nat (c - 48)) 0 s)
      else None)"

text \<open>pandas 2 on object columns of Python strings, with an \<^verbatim>\<open>int64\<close> numeric column.\<close>

definition pandas_int64 :: "(64 word, 64 word) pandas" where
  "pandas_int64 = additive (Some (py ''nan'')) python_isspace parse_digits"

section \<open>Notions used to state the properties of the fetch loops\<close>

text \<open>The history after \<open>i\<close> failed attempts at one request, starting from the history \<open>t\<close>:
  each failed attempt adds the exchange and the three-second sleep.\<close>

fun retry_history :: "'r server \<Rightarrow> request \<Rightarrow> nat \<Rightarrow> 'r event list \<Rightarrow> 'r event list" where
  "retry_history srv rq 0 t = t"
| "retry_history srv rq (Suc i) t = retry_history srv rq i (t @ [Call rq (srv t rq), Sleep 3000])"

text \<open>The replies after which each retry loop sleeps and tries again.\<close>

definition crop_retries :: "'r reply \<Rightarrow> bool" where
  "crop_retries rp = (case try_get rp of ExcRequest ro \<Rightarrow> True | ExcSSL \<Rightarrow> True | _ \<Rightarrow> False)"

definition rain_retries :: "'r reply \<Rightarrow> bool" where
  "rain_retries rp = (case try_get rp of ExcRequest ro \<Rightarrow> \<not> is_forbidden ro | _ \<Rightarrow> False)"


text \<open>The requests of a trace, and its pages: the exchanges that delivered a record list, each
  with the offset asked for.\<close>

fun requests_of :: "'r event list \<Rightarrow> request list" where
  "requests_of [] = []"
| "requests_of (Call rq rp # es) = rq # requests_of es"
| "requests_of (Sleep n # es) = requests_of es"

fun sleeps_of :: "'r event list \<Rightarrow> nat list" where
  "sleeps_of [] = []"
| "sleeps_of (Call rq rp # es) = sleeps_of es"
| "sleeps_of (Sleep n # es) = n # sleeps_of es"

fun pages :: "'r event list \<Rightarrow> (nat \<times> 'r list) list" where
  "pages [] = []"
| "pages (Call rq (Responded st (JObject recs)) # es) =
     (if raises_for_status st then pages es else (offset rq, recs) # pages es)"
| "pages (e # es) = pages es"

text \<open>A server that holds the record set \<open>ds\<close>: whenever it answers a request successfully, the
  page is the slice of \<open>ds\<close> at the offset, of at most the page size. A server without errors
  answers every request successfully.\<close>

definition serves :: "'r server \<Rightarrow> 'r list \<Rightarrow> bool" where
  "serves srv ds \<longleftrightarrow>
     (\<forall>h rq st b. srv h rq = Responded st b \<longrightarrow> \<not> raises_for_status st \<longrightarrow>
        b = JObject (take (limit rq) (drop (offset rq) ds)))"

definition no_errors :: "'r server \<Rightarrow> bool" where
  "no_errors srv \<longleftrightarrow> (\<forall>h rq. \<exists>st b. srv h rq = Responded st b \<and> \<not> raises_for_status st)"

section \<open>Example servers\<close>



text \<open>A server that holds three records and answers every request at once; a server that
  holds 2400 equal records.\<close>

definition small_server :: "nat server" where
  "small_server = (\<lambda>h rq. Responded 200 (JObject (take (limit rq) (drop (offset rq) [1, 2, 3]))))"

definition three_pages :: "nat server" where
  "three_pages =
     (\<lambda>h rq. Responded 200 (JObject (replicate (if offset rq < 2000 then 1000 else 400) 0)))"

text \<open>A server that delivers one record to the very first request and answers every later
  request with HTTP 403; a server that delivers one full page and then answers 403.\<close>

definition first_then_forbidden :: "nat server" where
  "first_then_forbidden =
     (\<lambda>h rq. if h = [] then Responded 200 (JObject [42]) else Responded 403 (JObject []))"

definition page_then_forbidden :: "nat server" where
  "page_then_forbidden =
     (\<lambda>h rq. if h = [] then Responded 200 (JObject (replicate 1000 0)) else Responded 403 (JObject []))"

section \<open>Notions used to state the properties of the cleaning\<close>

text \<open>The key columns of an output row of the rainfall table.\<close>

definition row_key :: "('y, 'n) rainfall_row \<Rightarrow> 'y group_key" where
  "row_key row = (rain_state row, rain_district row, rain_year row)"

text \<open>The running sum of a list of values, as the column computes it.\<close>

definition running_sum :: "('n, 's) pandas \<Rightarrow> 'n list \<Rightarrow> 'n" where
  "running_sum pd vs = sum_value pd (foldl (sum_step pd) (sum_init pd) vs)"

text \<open>The state of the running sum of a group in a list of groups, the initial state when the
  group is not there.\<close>

definition group_state :: "('n, 's) pandas \<Rightarrow> ('y group_key \<times> 's) list \<Rightarrow> 'y group_key \<Rightarrow> 's" where
  "group_state pd gs k = (case map_of gs k of None \<Rightarrow> sum_init pd | Some s \<Rightarrow> s)"

text \<open>Example rows: the two crop rows and the two rainfall rows of the specification's
  examples, a rainfall row without year, and a crop row whose production is the text \<^verbatim>\<open>NR\<close>.\<close>

definition punjab_row :: "(int, 64 word) raw_crop_row" where
  "punjab_row =
     \<lparr>state_name = Some (py '' Punjab ''), district_name = Some (py ''Moga''), crop_year = Some 2005,
      season_raw = Some (py ''Kharif''), crop_raw = Some (py ''Rice''), area_raw = Num 10,
      production_raw = Str (py ''123'')\<rparr>"

definition null_row :: "(int, 64 word) raw_crop_row" where
  "null_row = punjab_row\<lparr>production_raw := NaN\<rparr>"

definition nr_crop_row :: "(int, 64 word) raw_crop_row" where
  "nr_crop_row = punjab_row\<lparr>production_raw := Str (py ''NR'')\<rparr>"

definition goa_row :: "64 word cell \<Rightarrow> (int, 64 word) raw_rain_row" where
  "goa_row c =
     \<lparr>State = Some (py ''Goa''), District = Some (py ''Panaji''), Year = Some 2019, Avg_rainfall = c\<rparr>"

definition no_year_row :: "(int, 64 word) raw_rain_row" where
  "no_year_row =
     \<lparr>State = Some (py ''Goa''), District = Some (py ''Panaji''), Year = None,
      Avg_rainfall = Str (py ''100'')\<rparr>"

definition empty_world :: "(int, 64 word) world" where
  "empty_world = \<lparr>crop_csv = Map.empty, rain_csv = Map.empty, databases = Map.empty, console = []\<rparr>"

text \<open>Example worlds: only the crop file exists and an old database is in place; both files
  exist, with and without an old database.\<close>

definition old_database :: "(int, 64 word) database" where
  "old_database = [''agriculture_production'' \<mapsto> ProductionTable []]"

definition rain_missing_world :: "(int, 64 word) world" where
  "rain_missing_world =
     empty_world\<lparr>crop_csv := [CROP_FILE \<mapsto> [punjab_row, null_row]],
                 databases := [DB_FILE \<mapsto> old_database]\<rparr>"

definition fresh_world :: "(int, 64 word) world" where
  "fresh_world =
     empty_world\<lparr>crop_csv := [CROP_FILE \<mapsto> [punjab_row, null_row]],
                 rain_csv := [RAIN_FILE \<mapsto> [goa_row (Str (py ''100'')), goa_row (Str (py ''NR''))]]\<rparr>"

definition used_world :: "(int, 64 word) world" where
  "used_world = fresh_world\<lparr>databases := [DB_FILE \<mapsto> old_database], console := [BuildComplete]\<rparr>"
section \<open>The retry loops\<close>

lemma is_forbidden_False [simp]: "\<not> is_forbidden ro"
  by (cases ro) (auto simp: response_bool_def raises_for_status_def)

lemma retry_crop_skip:
  "k \<le> n \<Longrightarrow> (\<forall>i<k. crop_retries (srv (retry_history srv rq i t) rq)) \<Longrightarrow>
   \<exists>bd'. retry_crop bd srv rq n t = retry_crop bd' srv rq (n - k) (retry_history srv rq k t)"
proof (induction k arbitrary: n t bd)
  case 0
  then show ?case by auto
next
  case (Suc k)
  then obtain m where n: "n = Suc m" and km: "k \<le> m" by (cases n) auto
  from Suc.prems(2) have first: "crop_retries (srv t rq)" by force
  have rest: "\<forall>i<k. crop_retries (srv (retry_history srv rq i (t @ [Call rq (srv t rq), Sleep 3000])) rq)"
  proof (intro allI impI)
    fix i assume "i < k"
    then have "Suc i < Suc k" by simp
    with Suc.prems(2) have "crop_retries (srv (retry_history srv rq (Suc i) t) rq)" by blast
    then show "crop_retries (srv (retry_history srv rq i (t @ [Call rq (srv t rq), Sleep 3000])) rq)" by simp
  qed
  have step: "retry_crop bd srv rq (Suc m) t =
      retry_crop (bd \<or> responded (srv t rq)) srv rq m (t @ [Call rq (srv t rq), Sleep 3000])"
    using first by (auto simp: crop_retries_def Let_def split: tried.splits)
  from Suc.IH[OF km rest, of "bd \<or> responded (srv t rq)"] obtain bd' where
    "retry_crop (bd \<or> responded (srv t rq)) srv rq m (t @ [Call rq (srv t rq), Sleep 3000]) =
       retry_crop bd' srv rq (m - k) (retry_history srv rq k (t @ [Call rq (srv t rq), Sleep 3000]))"
    by blast
  then show ?case using step n by auto
qed

lemma retry_rain_skip:
  "k \<le> n \<Longrightarrow> (\<forall>i<k. rain_retries (srv (retry_history srv rq i t) rq)) \<Longrightarrow>
   retry_rain srv rq n t = retry_rain srv rq (n - k) (retry_history srv rq k t)"
proof (induction k arbitrary: n t)
  case 0
  then show ?case by simp
next
  case (Suc k)
  then obtain m where n: "n = Suc m" and km: "k \<le> m" by (cases n) auto
  from Suc.prems(2) have first: "rain_retries (srv t rq)" by force
  have rest: "\<forall>i<k. rain_retries (srv (retry_history srv rq i (t @ [Call rq (srv t rq), Sleep 3000])) rq)"
  proof (intro allI impI)
    fix i assume "i < k"
    then have "Suc i < Suc k" by simp
    with Suc.prems(2) have "rain_retries (srv (retry_history srv rq (Suc i) t) rq)" by blast
    then show "rain_retries (srv (retry_history srv rq i (t @ [Call rq (srv t rq), Sleep 3000])) rq)" by simp
  qed
  have step: "retry_rain srv rq (Suc m) t = retry_rain srv rq m (t @ [Call rq (srv t rq), Sleep 3000])"
    using first by (auto simp: rain_retries_def Let_def split: tried.splits)
  show ?case using Suc.IH[OF km rest] step n by simp
qed

lemma retry_crop_exhausted:
  "(\<forall>i<n. crop_retries (srv (retry_history srv rq i t) rq)) \<Longrightarrow>
   retry_crop bd srv rq n t = (Exhausted, retry_history srv rq n t)"
  using retry_crop_skip[where k = n and n = n and srv = srv and rq = rq and t = t and bd = bd] by auto

lemma retry_rain_exhausted:
  "(\<forall>i<n. rain_retries (srv (retry_history srv rq i t) rq)) \<Longrightarrow>
   retry_rain srv rq n t = (Exhausted, retry_history srv rq n t)"
  using retry_rain_skip[of n n srv rq t] by simp



lemma retry_history_const:
  "(\<And>h. srv h rq = rp) \<Longrightarrow> retry_history srv rq n t = t @ concat (replicate n [Call rq rp, Sleep 3000])"
  by (induction n arbitrary: t) auto


lemma requests_of_append [simp]: "requests_of (es @ fs) = requests_of es @ requests_of fs"
  by (induction es rule: requests_of.induct) auto

lemma sleeps_of_append [simp]: "sleeps_of (es @ fs) = sleeps_of es @ sleeps_of fs"
  by (induction es rule: sleeps_of.induct) auto

lemma pages_append [simp]: "pages (es @ fs) = pages es @ pages fs"
  by (induction es rule: pages.induct) auto





lemma crop_loop_exhausted:
  assumes "\<forall>i<mr. crop_retries (srv (retry_history srv \<lparr>resource_id = rid, filters = [], limit = lim, offset = off\<rparr> i t)
             \<lparr>resource_id = rid, filters = [], limit = lim, offset = off\<rparr>)"
  shows "crop_loop bd srv rid lim mr off acc t =
         Some (Records acc, retry_history srv \<lparr>resource_id = rid, filters = [], limit = lim, offset = off\<rparr> mr t)"
  by (subst crop_loop.simps) (simp add: retry_crop_exhausted[OF assms])

lemma rain_loop_exhausted:
  assumes "\<forall>i<mr. rain_retries (srv (retry_history srv \<lparr>resource_id = rid, filters = flt, limit = lim, offset = off\<rparr> i t)
             \<lparr>resource_id = rid, filters = flt, limit = lim, offset = off\<rparr>)"
  shows "rain_loop srv rid flt lim mr off acc t =
         Some (Records acc, retry_history srv \<lparr>resource_id = rid, filters = flt, limit = lim, offset = off\<rparr> mr t)"
  by (subst rain_loop.simps) (simp add: retry_rain_exhausted[OF assms])


section \<open>HTTP 403\<close>

text \<open>
  Claim C3 says that a page request answered with HTTP 403 is not retried and ends the fetch at
  once with the fatal signal and no records. The code does not do that. In \<^verbatim>\<open>rainfall.py\<close>
  the test \<^verbatim>\<open>e.response and e.response.status_code == 403\<close> is never true, because a response
  with an error status is falsy; in \<^verbatim>\<open>crop_data.py\<close> there is no test for 403 at all. Against
  a server that answers every request with 403, both fetch functions make the five attempts
  of the retry budget, sleep three seconds after each, and return an empty, non-fatal result.
\<close>

theorem forbidden_is_retried:
  "fetch_paginated_data (\<lambda>h rq. Responded 403 (JObject ([] :: 'r list))) RAIN_RESOURCE_ID
      (query_filters 2018 ''Uttar Pradesh'') []
   = Some (Records [],
       concat (replicate 5
         [Call \<lparr>resource_id = RAIN_RESOURCE_ID, filters = query_filters 2018 ''Uttar Pradesh'',
                 limit = 1000, offset = 0\<rparr> (Responded 403 (JObject [])),
          Sleep 3000]))
   \<and> fetch_all_data (\<lambda>h rq. Responded 403 (JObject ([] :: 'r list))) RAIN_RESOURCE_ID []
   = Some (Records [],
       concat (replicate 5
         [Call \<lparr>resource_id = RAIN_RESOURCE_ID, filters = [], limit = 1000, offset = 0\<rparr>
            (Responded 403 (JObject [])),
          Sleep 3000]))"
proof -
  let ?srv = "\<lambda>(h :: 'r event list) (rq :: request). Responded 403 (JObject ([] :: 'r list))"
  have hist: "retry_history ?srv rq 5 [] =
      concat (replicate 5 [Call rq (Responded 403 (JObject [])), Sleep 3000])" for rq
    using retry_history_const[of ?srv rq "Responded 403 (JObject [])" 5 "[]"] by simp
  have "rain_retries (Responded 403 (JObject ([] :: 'r list)))"
    by (simp add: rain_retries_def raises_for_status_def)
  then have rain: "rain_loop ?srv RAIN_RESOURCE_ID (query_filters 2018 ''Uttar Pradesh'') 1000 5 0 [] [] =
     Some (Records [], retry_history ?srv \<lparr>resource_id = RAIN_RESOURCE_ID,
        filters = query_filters 2018 ''Uttar Pradesh'', limit = 1000, offset = 0\<rparr> 5 [])"
    by (intro rain_loop_exhausted) simp
  have "crop_retries (Responded 403 (JObject ([] :: 'r list)))"
    by (simp add: crop_retries_def raises_for_status_def)
  then have crop: "crop_loop False ?srv RAIN_RESOURCE_ID 1000 5 0 [] [] =
     Some (Records [], retry_history ?srv \<lparr>resource_id = RAIN_RESOURCE_ID,
        filters = [], limit = 1000, offset = 0\<rparr> 5 [])"
    by (intro crop_loop_exhausted) simp
  show ?thesis
    unfolding fetch_paginated_data_def fetch_all_data_def using rain crop hist by simp
qed

section \<open>Transient errors and the retry budget\<close>








section \<open>What a retry loop adds to the trace\<close>

lemma try_get_Data: "try_get rp = Data d \<longleftrightarrow> (\<exists>st. rp = Responded st d \<and> \<not> raises_for_status st)"
  by (cases rp) auto

lemma pages_one_call:
  "pages [Call rq rp] =
     (case try_get rp of Data (JObject recs) \<Rightarrow> [(offset rq, recs)] | _ \<Rightarrow> [])"
  by (cases rp rule: try_get.cases) (auto split: body.splits)

lemma pages_Call:
  "pages (Call rq rp # es) =
     (case try_get rp of Data (JObject recs) \<Rightarrow> [(offset rq, recs)] | _ \<Rightarrow> []) @ pages es"
  using pages_append[of "[Call rq rp]" es] by (simp only: pages_one_call append_Cons append_Nil)

lemma retry_crop_trace:
  "retry_crop bd srv rq n t = (a, t') \<Longrightarrow>
   \<exists>es. t' = t @ es \<and> pages es = (case a of Got (JObject recs) \<Rightarrow> [(offset rq, recs)] | _ \<Rightarrow> [])"
proof (induction n arbitrary: t bd)
  case 0
  then show ?case by auto
next
  case (Suc n)
  let ?bd = "bd \<or> responded (srv t rq)"
  show ?case
  proof (cases "try_get (srv t rq)")
    case (Data d)
    with Suc.prems have "a = Got d" "t' = t @ [Call rq (srv t rq)]" by (auto simp: Let_def)
    then show ?thesis using Data by (auto simp: pages_one_call split: body.splits)
  next
    case (ExcRequest ro)
    with Suc.prems have "retry_crop ?bd srv rq n (t @ [Call rq (srv t rq), Sleep 3000]) = (a, t')"
      by (auto simp: Let_def)
    from Suc.IH[OF this] obtain es where
      "t' = (t @ [Call rq (srv t rq), Sleep 3000]) @ es"
      "pages es = (case a of Got (JObject recs) \<Rightarrow> [(offset rq, recs)] | _ \<Rightarrow> [])" by blast
    then have "t' = t @ ([Call rq (srv t rq), Sleep 3000] @ es) \<and>
        pages ([Call rq (srv t rq), Sleep 3000] @ es) = (case a of Got (JObject recs) \<Rightarrow> [(offset rq, recs)] | _ \<Rightarrow> [])"
      using ExcRequest pages_one_call[of rq "srv t rq"] by (simp add: pages_Call)
    then show ?thesis by blast
  next
    case ExcSSL
    with Suc.prems have "retry_crop ?bd srv rq n (t @ [Call rq (srv t rq), Sleep 3000]) = (a, t')"
      by (auto simp: Let_def)
    from Suc.IH[OF this] obtain es where
      "t' = (t @ [Call rq (srv t rq), Sleep 3000]) @ es"
      "pages es = (case a of Got (JObject recs) \<Rightarrow> [(offset rq, recs)] | _ \<Rightarrow> [])" by blast
    then have "t' = t @ ([Call rq (srv t rq), Sleep 3000] @ es) \<and>
        pages ([Call rq (srv t rq), Sleep 3000] @ es) = (case a of Got (JObject recs) \<Rightarrow> [(offset rq, recs)] | _ \<Rightarrow> [])"
      using ExcSSL pages_one_call[of rq "srv t rq"] by (simp add: pages_Call)
    then show ?thesis by blast
  next
    case ExcOther
    with Suc.prems have "a = Unexpected \<or> a = Uncaught" "t' = t @ [Call rq (srv t rq)]"
      by (auto simp: Let_def split: if_splits)
    then show ?thesis using ExcOther by (auto simp: pages_one_call)
  qed
qed

lemma retry_crop_Got:
  "retry_crop bd srv rq n t = (Got d, t') \<Longrightarrow> \<exists>h st. srv h rq = Responded st d \<and> \<not> raises_for_status st"
proof (induction n arbitrary: t bd)
  case 0
  then show ?case by simp
next
  case (Suc n)
  then show ?case
    by (cases "try_get (srv t rq)") (auto simp: Let_def try_get_Data split: if_splits)
qed

section \<open>Pages and offsets of \<^verbatim>\<open>fetch_all_data\<close>\<close>

lemma offsets_step:
  "off # map (\<lambda>i. off + lim + i * lim) [0..<m] = map (\<lambda>i. off + i * lim) [0..<Suc m]"
  by (simp only: map_upt_Suc) simp

lemma crop_loop_pages:
  assumes ret: "crop_loop bd srv rid lim mr off acc t = Some y"
  shows "\<exists>es. snd y = t @ es \<and>
     (\<forall>recs. fst y = Records recs \<longrightarrow>
        recs = acc @ concat (map snd (pages es)) \<and>
        map fst (pages es) = map (\<lambda>i. off + i * lim) [0..<length (pages es)])"
proof (rule crop_loop.raw_induct[where P = "\<lambda>bd srv rid lim mr off acc t y. \<exists>es. snd y = t @ es \<and>
     (\<forall>recs. fst y = Records recs \<longrightarrow>
        recs = acc @ concat (map snd (pages es)) \<and>
        map fst (pages es) = map (\<lambda>i. off + i * lim) [0..<length (pages es)])", OF _ ret], goal_cases)
  case (1 loop bd srv rid lim mr off acc t y)
  note IH = 1(1) and body = 1(2)
  let ?rq = "\<lparr>resource_id = rid, filters = [], limit = lim, offset = off\<rparr>"
  obtain a t1 where r: "retry_crop bd srv ?rq mr t = (a, t1)" by (cases "retry_crop bd srv ?rq mr t")
  from retry_crop_trace[OF r] obtain es1 where
    t1: "t1 = t @ es1" and
    p1: "pages es1 = (case a of Got (JObject recs) \<Rightarrow> [(offset ?rq, recs)] | _ \<Rightarrow> [])" by blast
  show ?case
  proof (cases a)
    case (Got d)
    show ?thesis
    proof (cases d)
      case (JObject records)
      have pg: "pages es1 = [(off, records)]" using p1 Got JObject by simp
      consider (empty) "records = []" | (short) "records \<noteq> []" "length records < lim"
        | (full) "records \<noteq> []" "\<not> length records < lim" by blast
      then show ?thesis
      proof cases
        case empty
        then have "y = (Records acc, t1)" using body r Got JObject by simp
        then show ?thesis using t1 pg empty by (intro exI[of _ es1]) simp
      next
        case short
        then have "y = (Records (acc @ records), t1)" using body r Got JObject by simp
        then show ?thesis using t1 pg by (intro exI[of _ es1]) simp
      next
        case full
        then have "loop True srv rid lim mr (off + lim) (acc @ records) t1 = Some y"
          using body r Got JObject by simp
        from IH[OF this] obtain es2 where
          e2: "snd y = t1 @ es2" and
          q2: "\<forall>recs. fst y = Records recs \<longrightarrow>
                recs = (acc @ records) @ concat (map snd (pages es2)) \<and>
                map fst (pages es2) = map (\<lambda>i. off + lim + i * lim) [0..<length (pages es2)]"
          by blast
        have "snd y = t @ (es1 @ es2)" using e2 t1 by simp
        moreover have "\<forall>recs. fst y = Records recs \<longrightarrow>
            recs = acc @ concat (map snd (pages (es1 @ es2))) \<and>
            map fst (pages (es1 @ es2)) = map (\<lambda>i. off + i * lim) [0..<length (pages (es1 @ es2))]"
          using q2 pg offsets_step[of off lim "length (pages es2)"] by simp
        ultimately show ?thesis by blast
      qed
    next
      case (JString s)
      then have "y = (Raised, t1)" using body r Got by simp
      then show ?thesis using t1 by (intro exI[of _ es1]) simp
    qed
  next
    case Exhausted
    then have "y = (Records acc, t1)" using body r by simp
    then show ?thesis using t1 p1 Exhausted by (intro exI[of _ es1]) simp
  next
    case Unexpected
    then have "y = (Records acc, t1)" using body r by simp
    then show ?thesis using t1 p1 Unexpected by (intro exI[of _ es1]) simp
  next
    case Fatal
    then have "y = (Raised, t1)" using body r by simp
    then show ?thesis using t1 by (intro exI[of _ es1]) simp
  next
    case Uncaught
    then have "y = (Raised, t1)" using body r by simp
    then show ?thesis using t1 by (intro exI[of _ es1]) simp
  qed
qed


section \<open>Termination of the pagination loop\<close>

lemma crop_loop_stops_short:
  assumes "retry_crop bd srv \<lparr>resource_id = rid, filters = [], limit = lim, offset = off\<rparr> mr t
             = (Got (JObject records), t')"
    and "records = [] \<or> length records < lim"
  shows "crop_loop bd srv rid lim mr off acc t = Some (Records (acc @ records), t')"
  using assms by (subst crop_loop.simps) auto

lemma crop_loop_terminates:
  assumes srv: "serves srv ds"
  shows "\<exists>y. crop_loop bd srv rid lim mr off acc t = Some y"
proof (induction "length ds - off" arbitrary: off acc t bd rule: less_induct)
  case less
  let ?rq = "\<lparr>resource_id = rid, filters = [], limit = lim, offset = off\<rparr>"
  obtain a t1 where r: "retry_crop bd srv ?rq mr t = (a, t1)" by (cases "retry_crop bd srv ?rq mr t")
  show ?case
  proof (cases a)
    case (Got d)
    from retry_crop_Got[OF r[unfolded Got]] obtain h st where
      "srv h ?rq = Responded st d" "\<not> raises_for_status st" by blast
    with srv have d: "d = JObject (take lim (drop off ds))"
      unfolding serves_def by fastforce
    let ?records = "take lim (drop off ds)"
    show ?thesis
    proof (cases "?records \<noteq> [] \<and> \<not> length ?records < lim")
      case True
      then have "lim \<le> length ds - off" "0 < lim" by auto
      then have "length ds - (off + lim) < length ds - off" by simp
      from less[OF this] obtain y where
        "crop_loop True srv rid lim mr (off + lim) (acc @ ?records) t1 = Some y" by blast
      then have "crop_loop bd srv rid lim mr off acc t = Some y"
        using True r Got d by (subst crop_loop.simps) simp
      then show ?thesis by blast
    next
      case False
      then have "crop_loop bd srv rid lim mr off acc t = Some (Records (acc @ ?records), t1)"
        using r Got d by (intro crop_loop_stops_short) auto
      then show ?thesis by blast
    qed
  next
    case Exhausted
    then have "crop_loop bd srv rid lim mr off acc t = Some (Records acc, t1)"
      using r by (subst crop_loop.simps) simp
    then show ?thesis by blast
  next
    case Unexpected
    then have "crop_loop bd srv rid lim mr off acc t = Some (Records acc, t1)"
      using r by (subst crop_loop.simps) simp
    then show ?thesis by blast
  next
    case Fatal
    then have "crop_loop bd srv rid lim mr off acc t = Some (Raised, t1)"
      using r by (subst crop_loop.simps) simp
    then show ?thesis by blast
  next
    case Uncaught
    then have "crop_loop bd srv rid lim mr off acc t = Some (Raised, t1)"
      using r by (subst crop_loop.simps) simp
    then show ?thesis by blast
  qed
qed

lemma retry_crop_first_try:
  assumes "srv t rq = Responded st d" "\<not> raises_for_status st"
  shows "retry_crop bd srv rq (Suc n) t = (Got d, t @ [Call rq (Responded st d)])"
  using assms by (simp add: Let_def)

lemma crop_loop_complete:
  assumes srv: "serves srv ds" and ok: "no_errors srv" and mr: "0 < mr" and lim: "0 < lim"
  shows "\<exists>es. crop_loop bd srv rid lim mr off acc t = Some (Records (acc @ drop off ds), t @ es)
           \<and> length (requests_of es) = (length ds - off) div lim + 1 \<and> sleeps_of es = []"
proof (induction "length ds - off" arbitrary: off acc t bd rule: less_induct)
  case less
  let ?rq = "\<lparr>resource_id = rid, filters = [], limit = lim, offset = off\<rparr>"
  let ?records = "take lim (drop off ds)"
  obtain n where n: "mr = Suc n" using mr by (cases mr) auto
  from ok obtain st b where rp: "srv t ?rq = Responded st b" "\<not> raises_for_status st"
    unfolding no_errors_def by blast
  with srv have b: "b = JObject ?records" unfolding serves_def by fastforce
  let ?t1 = "t @ [Call ?rq (Responded st b)]"
  have r: "retry_crop bd srv ?rq mr t = (Got (JObject ?records), ?t1)"
    using retry_crop_first_try[where srv = srv and t = t and rq = ?rq and st = st and d = b and n = n
        and bd = bd] rp n b by simp
  show ?case
  proof (cases "?records \<noteq> [] \<and> \<not> length ?records < lim")
    case True
    then have le: "lim \<le> length ds - off" by auto
    then have "length ds - (off + lim) < length ds - off" using lim by simp
    from less[OF this, of True "acc @ ?records" ?t1] obtain es where
      run: "crop_loop True srv rid lim mr (off + lim) (acc @ ?records) ?t1
              = Some (Records ((acc @ ?records) @ drop (off + lim) ds), ?t1 @ es)"
      and cnt: "length (requests_of es) = (length ds - (off + lim)) div lim + 1"
      and sl: "sleeps_of es = []" by blast
    have "?records @ drop (off + lim) ds = drop off ds"
      using append_take_drop_id[of lim "drop off ds"] by (simp add: add.commute)
    then have res: "(acc @ ?records) @ drop (off + lim) ds = acc @ drop off ds" by simp
    have "crop_loop bd srv rid lim mr off acc t = Some (Records (acc @ drop off ds), ?t1 @ es)"
      using True r run res by (subst crop_loop.simps) simp
    moreover have "(length ds - (off + lim)) div lim + 1 = (length ds - off) div lim"
      using le lim by (simp add: le_div_geq)
    ultimately have "crop_loop bd srv rid lim mr off acc t
          = Some (Records (acc @ drop off ds), t @ ([Call ?rq (Responded st b)] @ es))
        \<and> length (requests_of ([Call ?rq (Responded st b)] @ es)) = (length ds - off) div lim + 1
        \<and> sleeps_of ([Call ?rq (Responded st b)] @ es) = []"
      using cnt sl by simp
    then show ?thesis by blast
  next
    case False
    then have short: "?records = [] \<or> length ?records < lim" by blast
    then have all: "?records = drop off ds" using lim by auto
    have small: "(length ds - off) div lim = 0" using short lim by auto
    have "crop_loop bd srv rid lim mr off acc t = Some (Records (acc @ ?records), ?t1)"
      using r short by (intro crop_loop_stops_short)
    then have "crop_loop bd srv rid lim mr off acc t
          = Some (Records (acc @ drop off ds), t @ [Call ?rq (Responded st b)])
        \<and> length (requests_of [Call ?rq (Responded st b)]) = (length ds - off) div lim + 1
        \<and> sleeps_of [Call ?rq (Responded st b)] = []"
      using all small by simp
    then show ?thesis by blast
  qed
qed


text \<open>
  Claim C6. Against a server that holds a record set \<open>ds\<close> of \<open>N\<close> records (every successful
  answer is the slice of \<open>ds\<close> at the requested offset, of at most the page size), whatever
  errors it mixes in, \<^verbatim>\<open>fetch_all_data\<close> returns. In every fetch, a page of zero records or of
  fewer records than the page size ends the loop at once, with no further request. When the
  server makes no errors, the fetch returns the whole record set, never sleeps, and issues
  exactly \<open>N div 1000 + 1\<close> page requests, which is at most \<open>ceil (N / 1000) + 1\<close>.
\<close>

theorem pagination_terminates:
  "(serves srv ds \<longrightarrow> (\<exists>y. fetch_all_data srv rid t = Some y))
   \<and> (retry_crop bd srv \<lparr>resource_id = rid, filters = [], limit = lim, offset = off\<rparr> mr t
         = (Got (JObject records), t')
       \<and> (records = [] \<or> length records < lim)
      \<longrightarrow> crop_loop bd srv rid lim mr off acc t = Some (Records (acc @ records), t'))
   \<and> (serves srv ds \<and> no_errors srv \<longrightarrow>
        (\<exists>es. fetch_all_data srv rid t = Some (Records ds, t @ es)
           \<and> sleeps_of es = []
           \<and> length (requests_of es) = length ds div 1000 + 1
           \<and> length (requests_of es) \<le> (length ds + 999) div 1000 + 1))"
proof (intro conjI impI, goal_cases)
  case 1
  then show ?case unfolding fetch_all_data_def by (rule crop_loop_terminates)
next
  case 2
  then show ?case by (elim conjE) (rule crop_loop_stops_short)
next
  case 3
  then have "serves srv ds" "no_errors srv" by auto
  from crop_loop_complete[where mr = 5 and lim = 1000 and rid = rid and off = 0 and acc = "[]"
      and t = t and bd = False, OF this] obtain es where
    "crop_loop False srv rid 1000 5 0 [] t = Some (Records ds, t @ es)"
    "length (requests_of es) = length ds div 1000 + 1" "sleeps_of es = []" by auto
  moreover have "length ds div 1000 \<le> (length ds + 999) div 1000"
    by (rule div_le_mono) simp
  ultimately show ?case unfolding fetch_all_data_def by auto
qed

theorem pagination_terminates_witness:
  "fetch_all_data small_server ''r'' [] =
       Some (Records [1, 2, 3],
             [Call \<lparr>resource_id = ''r'', filters = [], limit = 1000, offset = 0\<rparr>
                (Responded 200 (JObject [1, 2, 3]))])
   \<and> (\<exists>es. fetch_all_data small_server ''r'' [] = Some (Records [1, 2, 3], es)
          \<and> length (requests_of es) = 1)"
proof -
  let ?rq = "\<lparr>resource_id = ''r'', filters = [], limit = 1000, offset = 0\<rparr>"
  have s: "serves small_server [1, 2, 3]" by (simp add: serves_def small_server_def)
  have n: "no_errors small_server" by (simp add: no_errors_def small_server_def raises_for_status_def)
  have r: "retry_crop False small_server ?rq 5 [] = (Got (JObject [1, 2, 3]), [Call ?rq (Responded 200 (JObject [1, 2, 3]))])"
    using retry_crop_first_try[where srv = small_server and t = "[]" and rq = ?rq and st = 200
        and d = "JObject [1, 2, 3]" and n = 4 and bd = False]
    by (simp add: small_server_def raises_for_status_def)
  note inst = pagination_terminates[of small_server "[1, 2, 3]" "''r''" "[]" False 1000 0 5 "[1, 2, 3]"
      "[Call ?rq (Responded 200 (JObject [1, 2, 3]))]" "[]"]
  from inst s n have a: "\<exists>es. fetch_all_data small_server ''r'' [] = Some (Records [1, 2, 3], es)
          \<and> length (requests_of es) = 1" by auto
  from inst r have "crop_loop False small_server ''r'' 1000 5 0 [] [] =
      Some (Records ([] @ [1, 2, 3]), [Call ?rq (Responded 200 (JObject [1, 2, 3]))])" by simp
  then have b: "fetch_all_data small_server ''r'' [] =
       Some (Records [1, 2, 3], [Call ?rq (Responded 200 (JObject [1, 2, 3]))])"
    by (simp add: fetch_all_data_def)
  show ?thesis using a b by blast
qed


section \<open>No page duplicated or dropped\<close>

lemma offsets_increasing: "sorted_wrt (<) (map (\<lambda>i. i * (1000::nat)) [0..<n])"
  by (simp add: sorted_wrt_map sorted_wrt_upt[THEN sorted_wrt_mono_rel[rotated]])

lemma fetch_all_data_pages:
  assumes "fetch_all_data srv rid t = Some (Records recs, t')"
  shows "\<exists>es. t' = t @ es \<and> recs = concat (map snd (pages es))
           \<and> length recs = sum_list (map (\<lambda>p. length (snd p)) (pages es))
           \<and> map fst (pages es) = map (\<lambda>i. i * 1000) [0..<length (pages es)]
           \<and> sorted_wrt (<) (map fst (pages es))"
proof -
  from crop_loop_pages[OF assms[unfolded fetch_all_data_def]] obtain es where
    es: "t' = t @ es" "recs = concat (map snd (pages es))"
     "map fst (pages es) = map (\<lambda>i. i * 1000) [0..<length (pages es)]" by auto
  have "length recs = sum_list (map (\<lambda>p. length (snd p)) (pages es))"
    unfolding es(2) by (simp add: length_concat comp_def)
  moreover have "sorted_wrt (<) (map fst (pages es))"
    using offsets_increasing[of "length (pages es)"] es(3) by simp
  ultimately show ?thesis using es by blast
qed

lemma three_page_fetch:
  fixes srv :: "'r server"
  assumes len: "length p1 = 1000" "length p2 = 1000" "length p3 = 400"
    and st: "\<not> raises_for_status s1" "\<not> raises_for_status s2" "\<not> raises_for_status s3"
    and a1: "srv t \<lparr>resource_id = rid, filters = [], limit = 1000, offset = 0\<rparr> = Responded s1 (JObject p1)"
    and a2: "srv (t @ [Call \<lparr>resource_id = rid, filters = [], limit = 1000, offset = 0\<rparr> (Responded s1 (JObject p1))])
               \<lparr>resource_id = rid, filters = [], limit = 1000, offset = 1000\<rparr> = Responded s2 (JObject p2)"
    and a3: "srv (t @ [Call \<lparr>resource_id = rid, filters = [], limit = 1000, offset = 0\<rparr> (Responded s1 (JObject p1)),
                      Call \<lparr>resource_id = rid, filters = [], limit = 1000, offset = 1000\<rparr> (Responded s2 (JObject p2))])
               \<lparr>resource_id = rid, filters = [], limit = 1000, offset = 2000\<rparr> = Responded s3 (JObject p3)"
  shows "fetch_all_data srv rid t =
     Some (Records (p1 @ p2 @ p3),
           t @ [Call \<lparr>resource_id = rid, filters = [], limit = 1000, offset = 0\<rparr> (Responded s1 (JObject p1)),
                Call \<lparr>resource_id = rid, filters = [], limit = 1000, offset = 1000\<rparr> (Responded s2 (JObject p2)),
                Call \<lparr>resource_id = rid, filters = [], limit = 1000, offset = 2000\<rparr> (Responded s3 (JObject p3))])"
proof -
  let ?rq = "\<lambda>off. \<lparr>resource_id = rid, filters = [], limit = 1000, offset = off\<rparr>"
  let ?c1 = "Call (?rq 0) (Responded s1 (JObject p1))"
  let ?c2 = "Call (?rq 1000) (Responded s2 (JObject p2))"
  let ?c3 = "Call (?rq 2000) (Responded s3 (JObject p3))"
  have ne: "p1 \<noteq> []" "p2 \<noteq> []" using len by auto
  have r1: "retry_crop False srv (?rq 0) 5 t = (Got (JObject p1), t @ [?c1])"
    using retry_crop_first_try[where srv = srv and t = t and rq = "?rq 0" and st = s1
        and d = "JObject p1" and n = 4 and bd = False] a1 st by simp
  have r2: "retry_crop True srv (?rq 1000) 5 (t @ [?c1]) = (Got (JObject p2), (t @ [?c1]) @ [?c2])"
    using retry_crop_first_try[where srv = srv and t = "t @ [?c1]" and rq = "?rq 1000" and st = s2
        and d = "JObject p2" and n = 4 and bd = True] a2 st by simp
  have r3: "retry_crop True srv (?rq 2000) 5 (t @ [?c1, ?c2]) = (Got (JObject p3), (t @ [?c1, ?c2]) @ [?c3])"
    using retry_crop_first_try[where srv = srv and t = "t @ [?c1, ?c2]" and rq = "?rq 2000" and st = s3
        and d = "JObject p3" and n = 4 and bd = True] a3 st by simp
  have l3: "crop_loop True srv rid 1000 5 2000 (p1 @ p2) (t @ [?c1, ?c2]) =
      Some (Records ((p1 @ p2) @ p3), (t @ [?c1, ?c2]) @ [?c3])"
    using r3 len by (intro crop_loop_stops_short) auto
  have l2: "crop_loop True srv rid 1000 5 1000 p1 (t @ [?c1]) =
      crop_loop True srv rid 1000 5 2000 (p1 @ p2) (t @ [?c1, ?c2])"
    using r2 len ne by (subst crop_loop.simps) simp
  have l1: "crop_loop False srv rid 1000 5 0 [] t = crop_loop True srv rid 1000 5 1000 p1 (t @ [?c1])"
    using r1 len ne by (subst crop_loop.simps) simp
  show ?thesis unfolding fetch_all_data_def using l1 l2 l3 by simp
qed


text \<open>
  Claim C7. Whenever \<^verbatim>\<open>fetch_all_data\<close> returns a record list, that list is the concatenation,
  in order, of the pages it received during the call, so its length is the sum of the page
  sizes; and the offsets of those pages are \<open>0, 1000, 2000, ...\<close> without gap, strictly
  increasing, so that no offset is processed twice. In particular, if the answers to the
  requests at offsets 0, 1000 and 2000 are pages of 1000, 1000 and 400 records, the fetch
  makes exactly these three requests and returns the 2400 records.
\<close>

theorem no_page_duplicated_or_dropped:
  fixes srv :: "'r server"
  shows
  "(fetch_all_data srv rid t = Some (Records recs, t') \<longrightarrow>
      (\<exists>es. t' = t @ es \<and> recs = concat (map snd (pages es))
           \<and> length recs = sum_list (map (\<lambda>p. length (snd p)) (pages es))
           \<and> map fst (pages es) = map (\<lambda>i. i * 1000) [0..<length (pages es)]
           \<and> sorted_wrt (<) (map fst (pages es))))
   \<and> (length p1 = 1000 \<and> length p2 = 1000 \<and> length p3 = 400
       \<and> \<not> raises_for_status s1 \<and> \<not> raises_for_status s2 \<and> \<not> raises_for_status s3
       \<and> srv t \<lparr>resource_id = rid, filters = [], limit = 1000, offset = 0\<rparr> = Responded s1 (JObject p1)
       \<and> srv (t @ [Call \<lparr>resource_id = rid, filters = [], limit = 1000, offset = 0\<rparr> (Responded s1 (JObject p1))])
               \<lparr>resource_id = rid, filters = [], limit = 1000, offset = 1000\<rparr> = Responded s2 (JObject p2)
       \<and> srv (t @ [Call \<lparr>resource_id = rid, filters = [], limit = 1000, offset = 0\<rparr> (Responded s1 (JObject p1)),
                      Call \<lparr>resource_id = rid, filters = [], limit = 1000, offset = 1000\<rparr> (Responded s2 (JObject p2))])
               \<lparr>resource_id = rid, filters = [], limit = 1000, offset = 2000\<rparr> = Responded s3 (JObject p3)
      \<longrightarrow> fetch_all_data srv rid t =
            Some (Records (p1 @ p2 @ p3),
              t @ [Call \<lparr>resource_id = rid, filters = [], limit = 1000, offset = 0\<rparr> (Responded s1 (JObject p1)),
                   Call \<lparr>resource_id = rid, filters = [], limit = 1000, offset = 1000\<rparr> (Responded s2 (JObject p2)),
                   Call \<lparr>resource_id = rid, filters = [], limit = 1000, offset = 2000\<rparr> (Responded s3 (JObject p3))])
          \<and> length (p1 @ p2 @ p3) = 2400)"
proof (intro conjI impI, goal_cases)
  case 1
  then show ?case by (rule fetch_all_data_pages)
next
  case 2
  then show ?case by (elim conjE) (rule three_page_fetch)
next
  case 3
  then show ?case by simp
qed

theorem no_page_duplicated_or_dropped_witness:
  "fetch_all_data three_pages ''r'' [] =
     Some (Records (replicate 1000 0 @ replicate 1000 0 @ replicate 400 0),
        [Call \<lparr>resource_id = ''r'', filters = [], limit = 1000, offset = 0\<rparr> (Responded 200 (JObject (replicate 1000 0))),
         Call \<lparr>resource_id = ''r'', filters = [], limit = 1000, offset = 1000\<rparr> (Responded 200 (JObject (replicate 1000 0))),
         Call \<lparr>resource_id = ''r'', filters = [], limit = 1000, offset = 2000\<rparr> (Responded 200 (JObject (replicate 400 0)))])
   \<and> length (replicate 1000 (0::nat) @ replicate 1000 0 @ replicate 400 0) = 2400
   \<and> (\<exists>es. map fst (pages es) = map (\<lambda>i. i * 1000) [0..<length (pages es)]
          \<and> replicate 1000 (0::nat) @ replicate 1000 0 @ replicate 400 0 = concat (map snd (pages es)))"
proof -
  let ?c1 = "Call \<lparr>resource_id = ''r'', filters = [], limit = 1000, offset = 0\<rparr> (Responded 200 (JObject (replicate 1000 (0::nat))))"
  let ?c2 = "Call \<lparr>resource_id = ''r'', filters = [], limit = 1000, offset = 1000\<rparr> (Responded 200 (JObject (replicate 1000 (0::nat))))"
  let ?c3 = "Call \<lparr>resource_id = ''r'', filters = [], limit = 1000, offset = 2000\<rparr> (Responded 200 (JObject (replicate 400 (0::nat))))"
  let ?all = "replicate 1000 (0::nat) @ replicate 1000 0 @ replicate 400 0"
  note inst = no_page_duplicated_or_dropped[of three_pages "''r''" "[]" ?all "[?c1, ?c2, ?c3]"
      "replicate 1000 0" "replicate 1000 0" "replicate 400 0" 200 200 200]
  have ok: "\<not> raises_for_status 200" by (simp add: raises_for_status_def)
  have run: "fetch_all_data three_pages ''r'' [] = Some (Records ?all, [?c1, ?c2, ?c3])
       \<and> length ?all = 2400"
    using inst ok by (simp add: three_pages_def)
  then have "\<exists>es. [?c1, ?c2, ?c3] = [] @ es \<and> ?all = concat (map snd (pages es))
           \<and> length ?all = sum_list (map (\<lambda>p. length (snd p)) (pages es))
           \<and> map fst (pages es) = map (\<lambda>i. i * 1000) [0..<length (pages es)]
           \<and> sorted_wrt (<) (map fst (pages es))"
    using inst by blast
  then have "\<exists>es. map fst (pages es) = map (\<lambda>i. i * 1000) [0..<length (pages es)]
          \<and> ?all = concat (map snd (pages es))" by blast
  with run show ?thesis by blast
qed


section \<open>HTTP 403 in a run of \<^verbatim>\<open>rainfall.py\<close>\<close>

lemma retry_history_extends: "\<exists>es. retry_history srv rq i t = t @ es"
proof (induction i arbitrary: t)
  case 0
  then show ?case by simp
next
  case (Suc i)
  from Suc[of "t @ [Call rq (srv t rq), Sleep 3000]"] show ?case by auto
qed

lemma retry_history_nonempty: "t \<noteq> [] \<Longrightarrow> retry_history srv rq i t \<noteq> []"
  using retry_history_extends[of srv rq i t] by auto

lemma retry_rain_first_try:
  assumes "srv t rq = Responded st d" "\<not> raises_for_status st"
  shows "retry_rain srv rq (Suc n) t = (Got d, t @ [Call rq (Responded st d)])"
  using assms by (simp add: Let_def)

lemma rain_loop_stops_short:
  assumes "retry_rain srv \<lparr>resource_id = rid, filters = flt, limit = lim, offset = off\<rparr> mr t
             = (Got (JObject records), t')"
    and "records = [] \<or> length records < lim"
  shows "rain_loop srv rid flt lim mr off acc t = Some (Records (acc @ records), t')"
  using assms by (subst rain_loop.simps) auto

lemma rain_retries_403: "rain_retries (Responded 403 b)"
  by (simp add: rain_retries_def raises_for_status_def)

lemma forbidden_query_is_empty:
  assumes srv: "\<And>h rq. h \<noteq> [] \<Longrightarrow> \<exists>b. srv h rq = Responded 403 b" and t: "t \<noteq> []"
  shows "\<exists>t'. rain_loop srv rid flt lim mr off acc t = Some (Records acc, t') \<and> t' \<noteq> []"
proof -
  let ?rq = "\<lparr>resource_id = rid, filters = flt, limit = lim, offset = off\<rparr>"
  have "\<forall>i<mr. rain_retries (srv (retry_history srv ?rq i t) ?rq)"
  proof (intro allI impI)
    fix i
    from srv[OF retry_history_nonempty[OF t, of srv ?rq i], of ?rq]
    show "rain_retries (srv (retry_history srv ?rq i t) ?rq)" by (auto simp: rain_retries_403)
  qed
  from rain_loop_exhausted[OF this] retry_history_nonempty[OF t] show ?thesis by blast
qed

lemma forbidden_queries_keep_records:
  assumes srv: "\<And>h rq. h \<noteq> [] \<Longrightarrow> \<exists>b. srv h rq = Responded 403 b"
  shows "t \<noteq> [] \<Longrightarrow> \<exists>t'. query_loop srv qs acc t = Some (Records acc, t')"
proof (induction qs arbitrary: t)
  case Nil
  then show ?case by simp
next
  case (Cons q qs)
  obtain year state where q: "q = (year, state)" by (cases q)
  from forbidden_query_is_empty[where srv = srv and t = t and rid = RAIN_RESOURCE_ID
      and flt = "query_filters year state" and lim = 1000 and mr = 5 and off = 0 and acc = "[]",
      OF srv Cons.prems]
  obtain t1 where f: "fetch_paginated_data srv RAIN_RESOURCE_ID (query_filters year state) t = Some (Records [], t1)"
    unfolding fetch_paginated_data_def by blast
  have "t1 @ [Sleep 500] \<noteq> []" by simp
  from Cons.IH[OF this] obtain t' where "query_loop srv qs acc (t1 @ [Sleep 500]) = Some (Records acc, t')"
    by blast
  then show ?case using f q by simp
qed

lemma queries_nonempty: "List.product YEARS_TO_FETCH STATES_LIST \<noteq> []"
  by (simp add: YEARS_TO_FETCH_def STATES_LIST_def)


text \<open>
  Claim C10 says that a run of \<^verbatim>\<open>rainfall.py\<close> in which some page request is answered with
  HTTP 403 writes no output file, the query that met the 403 returning the fatal signal with no
  records. The code does not do that, because its test for 403 is never true (see C3). Against
  a server that delivers one record to the first request and answers every later request with
  403, \<^verbatim>\<open>main\<close> runs through all filter combinations and writes the output file with that
  record. Against a server that delivers one full page and then answers 403, the query returns
  the 1000 records of the first page as an ordinary result.
\<close>

theorem forbidden_run_still_saves:
  "map_option fst (rainfall_main first_then_forbidden Map.empty []) = Some [RAIN_OUTPUT_FILE \<mapsto> [42]]
   \<and> map_option fst (fetch_paginated_data page_then_forbidden RAIN_RESOURCE_ID
                       (query_filters 2018 ''Uttar Pradesh'') [])
       = Some (Records (replicate 1000 0))"
proof
  have srv: "\<And>h rq. h \<noteq> [] \<Longrightarrow> \<exists>b. first_then_forbidden h rq = Responded 403 b"
    by (simp add: first_then_forbidden_def)
  have ok: "\<not> raises_for_status 200" by (simp add: raises_for_status_def)
  obtain q rest where qs: "List.product YEARS_TO_FETCH STATES_LIST = q # rest"
    using queries_nonempty by (cases "List.product YEARS_TO_FETCH STATES_LIST") auto
  obtain year state where q: "q = (year, state)" by (cases q)
  let ?rq = "\<lparr>resource_id = RAIN_RESOURCE_ID, filters = query_filters year state, limit = 1000, offset = 0\<rparr>"
  let ?c = "Call ?rq (Responded 200 (JObject [42::nat]))"
  have "retry_rain first_then_forbidden ?rq 5 [] = (Got (JObject [42]), [?c])"
    using retry_rain_first_try[of first_then_forbidden "[]" ?rq 200 "JObject [42]" 4] ok
    by (simp add: first_then_forbidden_def)
  then have "rain_loop first_then_forbidden RAIN_RESOURCE_ID (query_filters year state) 1000 5 0 [] []
      = Some (Records ([] @ [42]), [?c])"
    by (intro rain_loop_stops_short) auto
  then have first: "fetch_paginated_data first_then_forbidden RAIN_RESOURCE_ID (query_filters year state) []
      = Some (Records [42], [?c])"
    by (simp add: fetch_paginated_data_def)
  have "[?c] @ [Sleep 500] \<noteq> []" by simp
  from forbidden_queries_keep_records[where srv = first_then_forbidden and qs = rest and acc = "[42]", OF srv this]
  obtain t' where "query_loop first_then_forbidden rest [42] ([?c] @ [Sleep 500]) = Some (Records [42], t')"
    by blast
  then have "query_loop first_then_forbidden (List.product YEARS_TO_FETCH STATES_LIST) [] []
      = Some (Records [42], t')"
    using first qs q by simp
  then show "map_option fst (rainfall_main first_then_forbidden Map.empty []) = Some [RAIN_OUTPUT_FILE \<mapsto> [42]]"
    by (simp add: rainfall_main_def)
next
  have srv: "\<And>h rq. h \<noteq> [] \<Longrightarrow> \<exists>b. page_then_forbidden h rq = Responded 403 b"
    by (simp add: page_then_forbidden_def)
  have ok: "\<not> raises_for_status 200" by (simp add: raises_for_status_def)
  let ?flt = "query_filters 2018 ''Uttar Pradesh''"
  let ?rq = "\<lparr>resource_id = RAIN_RESOURCE_ID, filters = ?flt, limit = 1000, offset = 0\<rparr>"
  let ?c = "Call ?rq (Responded 200 (JObject (replicate 1000 (0::nat))))"
  have r: "retry_rain page_then_forbidden ?rq 5 [] = (Got (JObject (replicate 1000 0)), [?c])"
    using retry_rain_first_try[of page_then_forbidden "[]" ?rq 200 "JObject (replicate 1000 0)" 4] ok
    by (simp add: page_then_forbidden_def)
  have "[?c] \<noteq> []" by simp
  from forbidden_query_is_empty[where srv = page_then_forbidden and t = "[?c]" and rid = RAIN_RESOURCE_ID
      and flt = ?flt and lim = 1000 and mr = 5 and off = 1000 and acc = "replicate 1000 0", OF srv this]
  obtain t' where "rain_loop page_then_forbidden RAIN_RESOURCE_ID ?flt 1000 5 1000 (replicate 1000 0) [?c]
      = Some (Records (replicate 1000 0), t')" by blast
  then have "rain_loop page_then_forbidden RAIN_RESOURCE_ID ?flt 1000 5 0 [] []
      = Some (Records (replicate 1000 0), t')"
    using r by (subst rain_loop.simps) simp
  then show "map_option fst (fetch_paginated_data page_then_forbidden RAIN_RESOURCE_ID ?flt [])
       = Some (Records (replicate 1000 0))"
    by (simp add: fetch_paginated_data_def)
qed


section \<open>The production table\<close>

lemma process_crop_rows_kept:
  "fst (process_crop_rows pd df) =
     map (clean_crop_row pd) [r \<leftarrow> df. to_numeric pd (production_raw r) \<noteq> None]"
  by (simp add: process_crop_rows_def Let_def filter_map comp_def clean_crop_row_def)

lemma length_filter_split:
  "int (length xs) - int (length (filter P xs)) = int (length (filter (\<lambda>x. \<not> P x) xs))"
  using sum_length_filter_compl[of P xs] by simp

lemma process_crop_rows_dropped:
  "snd (process_crop_rows pd df) =
     int (length [r \<leftarrow> df. to_numeric pd (production_raw r) = None])"
proof -
  have "snd (process_crop_rows pd df) =
      int (length df) - int (length [r \<leftarrow> df. to_numeric pd (production_raw r) \<noteq> None])"
    by (simp add: process_crop_rows_def Let_def filter_map comp_def clean_crop_row_def)
  then show ?thesis using length_filter_split[of df "\<lambda>r. to_numeric pd (production_raw r) \<noteq> None"]
    by simp
qed

lemma process_crop_rows_count:
  "int (length (fst (process_crop_rows pd df))) = int (length df) - snd (process_crop_rows pd df)"
  by (simp add: process_crop_rows_def Let_def)

lemma process_crop_rows_no_null:
  "r \<in> set (fst (process_crop_rows pd df)) \<Longrightarrow> production_tonnes r \<noteq> None"
  by (simp add: process_crop_rows_def Let_def)

lemma process_crop_data_reports:
  "crop_csv w filepath = Some df \<Longrightarrow>
   process_crop_data pd filepath w =
     (Some (fst (process_crop_rows pd df)),
      if snd (process_crop_rows pd df) > 0
      then print (DroppedRows (snd (process_crop_rows pd df))) w else w)"
  by (simp add: process_crop_data_def split_beta Let_def)

text \<open>
  Claim C2. For every raw crop table: no row of the production output has a missing
  \<^verbatim>\<open>production_tonnes\<close>; the number of output rows is the number of input rows minus
  \<^verbatim>\<open>dropped_count\<close>; the rows dropped are exactly those whose \<^verbatim>\<open>production_\<close> field does not
  convert to a number (it is missing, or a text that is no number), the others are kept in
  order; and \<^verbatim>\<open>process_crop_data\<close> reports \<^verbatim>\<open>dropped_count\<close> whenever it is positive.
\<close>

theorem production_rows_complete:
  "(\<forall>r \<in> set (fst (process_crop_rows pd df)). production_tonnes r \<noteq> None)
   \<and> int (length (fst (process_crop_rows pd df))) = int (length df) - snd (process_crop_rows pd df)
   \<and> snd (process_crop_rows pd df) = int (length [r \<leftarrow> df. to_numeric pd (production_raw r) = None])
   \<and> fst (process_crop_rows pd df) =
        map (clean_crop_row pd) [r \<leftarrow> df. to_numeric pd (production_raw r) \<noteq> None]
   \<and> (crop_csv w filepath = Some df \<longrightarrow>
        process_crop_data pd filepath w =
          (Some (fst (process_crop_rows pd df)),
           if snd (process_crop_rows pd df) > 0
           then print (DroppedRows (snd (process_crop_rows pd df))) w else w))"
  using process_crop_rows_no_null[of _ pd df] process_crop_rows_count[of pd df]
    process_crop_rows_dropped[of pd df] process_crop_rows_kept[of pd df]
    process_crop_data_reports[of w filepath df pd]
  by blast

lemma strip_Punjab: "strip pandas_int64 (py '' Punjab '') = py ''Punjab''"
  by (simp add: strip_def py_def pandas_int64_def additive_def python_isspace_def)

lemma parse_digits_123: "parse pandas_int64 (py ''123'') = Some 123"
  by (simp add: pandas_int64_def additive_def parse_digits_def py_def is_digit_def)

theorem production_rows_complete_witness:
  "process_crop_data pandas_int64 CROP_FILE (empty_world\<lparr>crop_csv := [CROP_FILE \<mapsto> [punjab_row, null_row]]\<rparr>)
   = (Some [clean_crop_row pandas_int64 punjab_row],
      print (DroppedRows 1) (empty_world\<lparr>crop_csv := [CROP_FILE \<mapsto> [punjab_row, null_row]]\<rparr>))
   \<and> state (clean_crop_row pandas_int64 punjab_row) = Some (py ''Punjab'')
   \<and> year (clean_crop_row pandas_int64 punjab_row) = Some 2005
   \<and> production_tonnes (clean_crop_row pandas_int64 punjab_row) = Some 123"
proof -
  let ?df = "[punjab_row, null_row]"
  let ?w = "empty_world\<lparr>crop_csv := [CROP_FILE \<mapsto> ?df]\<rparr>"
  note inst = production_rows_complete[of pandas_int64 ?df ?w CROP_FILE]
  have p: "to_numeric pandas_int64 (production_raw punjab_row) = Some 123"
    by (simp add: punjab_row_def parse_digits_123)
  have n: "to_numeric pandas_int64 (production_raw null_row) = None"
    by (simp add: null_row_def)
  have f1: "[r \<leftarrow> ?df. to_numeric pandas_int64 (production_raw r) \<noteq> None] = [punjab_row]"
    using p n by simp
  have f2: "[r \<leftarrow> ?df. to_numeric pandas_int64 (production_raw r) = None] = [null_row]"
    using p n by simp
  have kept: "fst (process_crop_rows pandas_int64 ?df) = [clean_crop_row pandas_int64 punjab_row]"
    using inst unfolding f1 by simp
  have dropped: "snd (process_crop_rows pandas_int64 ?df) = 1"
    using inst unfolding f2 by simp
  have csv: "crop_csv ?w CROP_FILE = Some ?df" by simp
  have a: "process_crop_data pandas_int64 CROP_FILE ?w
      = (Some [clean_crop_row pandas_int64 punjab_row], print (DroppedRows 1) ?w)"
    using inst csv kept dropped by simp
  have b: "state (clean_crop_row pandas_int64 punjab_row) = Some (py ''Punjab'')"
    by (simp add: clean_crop_row_def clean_str_def punjab_row_def strip_Punjab)
  have c: "year (clean_crop_row pandas_int64 punjab_row) = Some 2005"
    by (simp add: clean_crop_row_def punjab_row_def)
  have d: "production_tonnes (clean_crop_row pandas_int64 punjab_row) = Some 123"
    using p by (simp add: clean_crop_row_def)
  show ?thesis using a b c d by blast
qed


section \<open>The database build\<close>

lemma print_fields [simp]:
  "databases (print m w) = databases w" "crop_csv (print m w) = crop_csv w"
  "rain_csv (print m w) = rain_csv w" "console (print m w) = console w @ [m]"
  by (simp_all add: print_def)

lemma process_crop_data_world [simp]:
  "databases (snd (process_crop_data pd p w)) = databases w"
  "crop_csv (snd (process_crop_data pd p w)) = crop_csv w"
  "rain_csv (snd (process_crop_data pd p w)) = rain_csv w"
  by (simp_all add: process_crop_data_def split_beta Let_def split: option.splits)

lemma process_rainfall_data_world [simp]:
  "databases (snd (process_rainfall_data pd p w)) = databases w"
  "crop_csv (snd (process_rainfall_data pd p w)) = crop_csv w"
  "rain_csv (snd (process_rainfall_data pd p w)) = rain_csv w"
  by (simp_all add: process_rainfall_data_def split: option.splits)

lemma process_crop_data_result:
  "fst (process_crop_data pd p w) = map_option (\<lambda>df. fst (process_crop_rows pd df)) (crop_csv w p)"
  by (simp add: process_crop_data_def split_beta Let_def split: option.splits)

lemma process_rainfall_data_result:
  "fst (process_rainfall_data pd p w) = map_option (process_rainfall_rows pd) (rain_csv w p)"
  by (simp add: process_rainfall_data_def split: option.splits)

lemma write_database:
  "databases (to_sql path n2 t2 (to_sql path n1 t1 (connect path (remove_if_exists path w))))
     = (databases w)(path \<mapsto> [n1 \<mapsto> t1, n2 \<mapsto> t2])"
  "crop_csv (to_sql path n2 t2 (to_sql path n1 t1 (connect path (remove_if_exists path w)))) = crop_csv w"
  "rain_csv (to_sql path n2 t2 (to_sql path n1 t1 (connect path (remove_if_exists path w)))) = rain_csv w"
  by (auto simp: to_sql_def connect_def remove_if_exists_def)

lemma main_failure:
  assumes "crop_csv w CROP_FILE = None \<or> rain_csv w RAIN_FILE = None"
  shows "db_creator_main pd w =
     print BuildFailed (snd (process_rainfall_data pd RAIN_FILE (snd (process_crop_data pd CROP_FILE w))))"
proof -
  have "fst (process_crop_data pd CROP_FILE w) = None
      \<or> fst (process_rainfall_data pd RAIN_FILE (snd (process_crop_data pd CROP_FILE w))) = None"
    using assms by (auto simp: process_crop_data_result process_rainfall_data_result)
  then show ?thesis
    by (auto simp: db_creator_main_def split_beta Let_def split: option.splits)
qed

lemma main_success:
  assumes "crop_csv w CROP_FILE = Some c" "rain_csv w RAIN_FILE = Some r"
  shows "db_creator_main pd w =
     print BuildComplete
       (to_sql DB_FILE ''climate_rainfall'' (RainfallTable (process_rainfall_rows pd r))
         (to_sql DB_FILE ''agriculture_production'' (ProductionTable (fst (process_crop_rows pd c)))
           (connect DB_FILE (remove_if_exists DB_FILE
              (snd (process_rainfall_data pd RAIN_FILE (snd (process_crop_data pd CROP_FILE w))))))))"
proof -
  have "fst (process_crop_data pd CROP_FILE w) = Some (fst (process_crop_rows pd c))"
    "fst (process_rainfall_data pd RAIN_FILE (snd (process_crop_data pd CROP_FILE w)))
       = Some (process_rainfall_rows pd r)"
    using assms by (auto simp: process_crop_data_result process_rainfall_data_result)
  then show ?thesis
    by (simp add: db_creator_main_def split_beta Let_def)
qed

lemma main_failure_world:
  assumes "crop_csv w CROP_FILE = None \<or> rain_csv w RAIN_FILE = None"
  shows "databases (db_creator_main pd w) = databases w"
    and "crop_csv (db_creator_main pd w) = crop_csv w"
    and "rain_csv (db_creator_main pd w) = rain_csv w"
    and "last (console (db_creator_main pd w)) = BuildFailed"
  by (simp_all add: main_failure[OF assms])

lemma main_success_world:
  assumes "crop_csv w CROP_FILE = Some c" "rain_csv w RAIN_FILE = Some r"
  shows "databases (db_creator_main pd w) =
           (databases w)(DB_FILE \<mapsto>
              [''agriculture_production'' \<mapsto> ProductionTable (fst (process_crop_rows pd c)),
               ''climate_rainfall'' \<mapsto> RainfallTable (process_rainfall_rows pd r)])"
    and "crop_csv (db_creator_main pd w) = crop_csv w"
    and "rain_csv (db_creator_main pd w) = rain_csv w"
  by (simp_all add: main_success[OF assms] write_database)


text \<open>
  Claim C4. In a run of \<^verbatim>\<open>main\<close>, the cleaning of a dataset yields nothing exactly when its
  input file is missing. If either cleaning yields nothing, every database file, the
  destination included, is as it was before the run (nothing removed, nothing created), and
  the run ends with the failure message. If both input files exist, the destination file is
  replaced by a database that holds exactly the two cleaned tables.
\<close>

theorem database_all_or_nothing:
  "(fst (process_crop_data pd CROP_FILE w) = None
      \<or> fst (process_rainfall_data pd RAIN_FILE (snd (process_crop_data pd CROP_FILE w))) = None
    \<longrightarrow> databases (db_creator_main pd w) = databases w
        \<and> last (console (db_creator_main pd w)) = BuildFailed)
   \<and> (fst (process_crop_data pd CROP_FILE w) = None \<longleftrightarrow> crop_csv w CROP_FILE = None)
   \<and> (fst (process_rainfall_data pd RAIN_FILE (snd (process_crop_data pd CROP_FILE w))) = None
        \<longleftrightarrow> rain_csv w RAIN_FILE = None)
   \<and> (crop_csv w CROP_FILE = Some c \<and> rain_csv w RAIN_FILE = Some r
        \<longrightarrow> databases (db_creator_main pd w) =
              (databases w)(DB_FILE \<mapsto>
                 [''agriculture_production'' \<mapsto> ProductionTable (fst (process_crop_rows pd c)),
                  ''climate_rainfall'' \<mapsto> RainfallTable (process_rainfall_rows pd r)]))"
proof (intro conjI impI, goal_cases)
  case 1
  then have "crop_csv w CROP_FILE = None \<or> rain_csv w RAIN_FILE = None"
    by (auto simp: process_crop_data_result process_rainfall_data_result)
  then show ?case by (rule main_failure_world(1))
next
  case 2
  then have "crop_csv w CROP_FILE = None \<or> rain_csv w RAIN_FILE = None"
    by (auto simp: process_crop_data_result process_rainfall_data_result)
  then show ?case by (rule main_failure_world(4))
next
  case 3
  show ?case by (simp add: process_crop_data_result)
next
  case 4
  show ?case by (simp add: process_rainfall_data_result)
next
  case 5
  then show ?case by (elim conjE) (rule main_success_world(1))
qed

theorem database_all_or_nothing_witness:
  "rain_csv rain_missing_world RAIN_FILE = None
   \<and> databases (db_creator_main pandas_int64 rain_missing_world) = [DB_FILE \<mapsto> old_database]
   \<and> databases (db_creator_main pandas_int64 used_world) =
       [DB_FILE \<mapsto>
          [''agriculture_production'' \<mapsto>
             ProductionTable (fst (process_crop_rows pandas_int64 [punjab_row, null_row])),
           ''climate_rainfall'' \<mapsto>
             RainfallTable (process_rainfall_rows pandas_int64 [goa_row (Str (py ''100'')), goa_row (Str (py ''NR''))])]]"
proof -
  have m: "rain_csv rain_missing_world RAIN_FILE = None"
    by (simp add: rain_missing_world_def empty_world_def)
  have d: "databases rain_missing_world = [DB_FILE \<mapsto> old_database]"
    by (simp add: rain_missing_world_def empty_world_def)
  note inst1 = database_all_or_nothing[of pandas_int64 rain_missing_world]
  from inst1 m have "fst (process_rainfall_data pandas_int64 RAIN_FILE
      (snd (process_crop_data pandas_int64 CROP_FILE rain_missing_world))) = None" by blast
  with inst1 d have a: "databases (db_creator_main pandas_int64 rain_missing_world) = [DB_FILE \<mapsto> old_database]"
    by simp
  have c: "crop_csv used_world CROP_FILE = Some [punjab_row, null_row]"
    and r: "rain_csv used_world RAIN_FILE = Some [goa_row (Str (py ''100'')), goa_row (Str (py ''NR''))]"
    and u: "databases used_world = [DB_FILE \<mapsto> old_database]"
    by (simp_all add: used_world_def fresh_world_def empty_world_def)
  note inst2 = database_all_or_nothing[of pandas_int64 used_world "[punjab_row, null_row]"
      "[goa_row (Str (py ''100'')), goa_row (Str (py ''NR''))]"]
  from inst2 c r u have b: "databases (db_creator_main pandas_int64 used_world) =
       [DB_FILE \<mapsto>
          [''agriculture_production'' \<mapsto>
             ProductionTable (fst (process_crop_rows pandas_int64 [punjab_row, null_row])),
           ''climate_rainfall'' \<mapsto>
             RainfallTable (process_rainfall_rows pandas_int64 [goa_row (Str (py ''100'')), goa_row (Str (py ''NR''))])]]"
    by simp
  show ?thesis using m a b by blast
qed

lemma main_twice:
  "databases (db_creator_main pd (db_creator_main pd w)) = databases (db_creator_main pd w)"
proof (cases "crop_csv w CROP_FILE = None \<or> rain_csv w RAIN_FILE = None")
  case True
  then have "crop_csv (db_creator_main pd w) CROP_FILE = None
      \<or> rain_csv (db_creator_main pd w) RAIN_FILE = None"
    by (simp add: main_failure_world(2,3)[OF True])
  from main_failure_world(1)[OF this] show ?thesis .
next
  case False
  then obtain c r where cr: "crop_csv w CROP_FILE = Some c" "rain_csv w RAIN_FILE = Some r" by auto
  then have "crop_csv (db_creator_main pd w) CROP_FILE = Some c"
    "rain_csv (db_creator_main pd w) RAIN_FILE = Some r"
    by (simp_all add: main_success_world(2,3)[OF cr])
  from main_success_world(1)[OF this, where pd = pd] main_success_world(1)[OF cr, where pd = pd]
  show ?thesis by simp
qed

lemma main_keeps_csv:
  "crop_csv (db_creator_main pd w) = crop_csv w \<and> rain_csv (db_creator_main pd w) = rain_csv w"
proof (cases "crop_csv w CROP_FILE = None \<or> rain_csv w RAIN_FILE = None")
  case True
  then show ?thesis by (simp add: main_failure_world(2,3)[OF True])
next
  case False
  then obtain c r where cr: "crop_csv w CROP_FILE = Some c" "rain_csv w RAIN_FILE = Some r" by auto
  then show ?thesis by (simp add: main_success_world(2,3)[OF cr])
qed

lemma main_same_inputs:
  assumes "crop_csv w1 CROP_FILE = crop_csv w2 CROP_FILE" "rain_csv w1 RAIN_FILE = rain_csv w2 RAIN_FILE"
    and "crop_csv w1 CROP_FILE \<noteq> None" "rain_csv w1 RAIN_FILE \<noteq> None"
  shows "databases (db_creator_main pd w1) DB_FILE = databases (db_creator_main pd w2) DB_FILE"
proof -
  from assms obtain c r where
    "crop_csv w1 CROP_FILE = Some c" "rain_csv w1 RAIN_FILE = Some r"
    "crop_csv w2 CROP_FILE = Some c" "rain_csv w2 RAIN_FILE = Some r" by auto
  then show ?thesis by (simp add: main_success_world(1))
qed

text \<open>
  Claim C9. The cleaned tables are a function of the raw input files alone: two runs, under
  the same installation of pandas, in worlds that agree on the two raw files produce the same
  production table and the same rainfall table, whatever else differs (an existing database,
  earlier output), and when the files exist they leave the same database behind. A run does
  not change the raw files, and running \<^verbatim>\<open>main\<close> a second time leaves every database as the
  first run left it.
\<close>

theorem transformer_deterministic:
  "(crop_csv w1 CROP_FILE = crop_csv w2 CROP_FILE \<and> rain_csv w1 RAIN_FILE = rain_csv w2 RAIN_FILE
      \<longrightarrow> fst (process_crop_data pd CROP_FILE w1) = fst (process_crop_data pd CROP_FILE w2)
        \<and> fst (process_rainfall_data pd RAIN_FILE w1) = fst (process_rainfall_data pd RAIN_FILE w2)
        \<and> (crop_csv w1 CROP_FILE \<noteq> None \<and> rain_csv w1 RAIN_FILE \<noteq> None
             \<longrightarrow> databases (db_creator_main pd w1) DB_FILE = databases (db_creator_main pd w2) DB_FILE))
   \<and> crop_csv (db_creator_main pd w1) = crop_csv w1
   \<and> rain_csv (db_creator_main pd w1) = rain_csv w1
   \<and> databases (db_creator_main pd (db_creator_main pd w1)) = databases (db_creator_main pd w1)"
proof (intro conjI impI, goal_cases)
  case 1
  then show ?case by (simp add: process_crop_data_result)
next
  case 2
  then show ?case by (simp add: process_rainfall_data_result)
next
  case 3
  then show ?case by (intro main_same_inputs) auto
next
  case 4
  show ?case using main_keeps_csv by blast
next
  case 5
  show ?case using main_keeps_csv by blast
next
  case 6
  show ?case by (rule main_twice)
qed

theorem transformer_deterministic_witness:
  "crop_csv fresh_world CROP_FILE = crop_csv used_world CROP_FILE
   \<and> rain_csv fresh_world RAIN_FILE = rain_csv used_world RAIN_FILE
   \<and> databases fresh_world \<noteq> databases used_world
   \<and> fst (process_crop_data pandas_int64 CROP_FILE fresh_world)
       = fst (process_crop_data pandas_int64 CROP_FILE used_world)
   \<and> fst (process_rainfall_data pandas_int64 RAIN_FILE fresh_world)
       = fst (process_rainfall_data pandas_int64 RAIN_FILE used_world)
   \<and> databases (db_creator_main pandas_int64 fresh_world) DB_FILE
       = databases (db_creator_main pandas_int64 used_world) DB_FILE"
proof -
  have c: "crop_csv fresh_world CROP_FILE = crop_csv used_world CROP_FILE"
    and r: "rain_csv fresh_world RAIN_FILE = rain_csv used_world RAIN_FILE"
    by (simp_all add: used_world_def)
  have ne: "crop_csv fresh_world CROP_FILE \<noteq> None" "rain_csv fresh_world RAIN_FILE \<noteq> None"
    by (simp_all add: fresh_world_def empty_world_def)
  have d: "databases fresh_world \<noteq> databases used_world"
  proof
    assume "databases fresh_world = databases used_world"
    then have "databases fresh_world DB_FILE = databases used_world DB_FILE" by simp
    then show False by (simp add: used_world_def fresh_world_def empty_world_def)
  qed
  note inst = transformer_deterministic[of fresh_world used_world pandas_int64]
  from inst c r ne d show ?thesis by blast
qed



section \<open>The rainfall table\<close>

lemma keys_add_to_group: "fst ` set (add_to_group pd k v gs) = insert k (fst ` set gs)"
  by (induction pd k v gs rule: add_to_group.induct) (simp_all add: insert_commute)

lemma distinct_add_to_group:
  "distinct (map fst gs) \<Longrightarrow> distinct (map fst (add_to_group pd k v gs))"
proof (induction pd k v gs rule: add_to_group.induct)
  case (1 pd k v)
  then show ?case by simp
next
  case (2 pd k v k' s gs)
  show ?case
  proof (cases "k = k'")
    case True
    then show ?thesis using "2.prems" by simp
  next
    case False
    have "k' \<notin> fst ` set (add_to_group pd k v gs)"
      using "2.prems" False unfolding keys_add_to_group by auto
    then show ?thesis using 2 False by simp
  qed
qed

lemma group_state_Nil [simp]: "group_state pd [] k = sum_init pd"
  by (simp add: group_state_def)

lemma group_state_Cons [simp]:
  "group_state pd ((k', s) # gs) k = (if k = k' then s else group_state pd gs k)"
  by (simp add: group_state_def)

lemma state_add_to_group:
  "group_state pd (add_to_group pd k v gs) k' =
     (if k' = k then sum_step pd (group_state pd gs k) v else group_state pd gs k')"
  by (induction pd k v gs rule: add_to_group.induct) auto

lemma keys_accumulate:
  "fst ` set (accumulate pd rows gs) = fst ` set gs \<union> {k. \<exists>v. (Some k, v) \<in> set rows}"
proof (induction pd rows gs rule: accumulate.induct)
  case (1 pd gs)
  then show ?case by simp
next
  case (2 pd v rows gs)
  then show ?case by auto
next
  case (3 pd k v rows gs)
  then show ?case unfolding keys_add_to_group by auto
qed

lemma distinct_accumulate:
  "distinct (map fst gs) \<Longrightarrow> distinct (map fst (accumulate pd rows gs))"
  by (induction pd rows gs rule: accumulate.induct) (simp_all add: distinct_add_to_group)

lemma state_accumulate:
  "group_state pd (accumulate pd rows gs) k =
     foldl (sum_step pd) (group_state pd gs k) (map snd [p \<leftarrow> rows. fst p = Some k])"
  by (induction pd rows gs rule: accumulate.induct) (simp_all add: state_add_to_group)

lemma groupby_sum_fst:
  "map fst (groupby_sum pd rows) = map fst (sort_key fst (accumulate pd rows []))"
  by (simp add: groupby_sum_def comp_def)

lemma groupby_sum_keys:
  "fst ` set (groupby_sum pd rows) = {k. \<exists>v. (Some k, v) \<in> set rows}"
proof -
  have "fst ` set (groupby_sum pd rows) = set (map fst (groupby_sum pd rows))" by simp
  also have "\<dots> = fst ` set (accumulate pd rows [])" unfolding groupby_sum_fst by simp
  finally show ?thesis by (simp add: keys_accumulate)
qed

lemma groupby_sum_distinct: "distinct (map fst (groupby_sum pd rows))"
proof -
  have "distinct (map fst (accumulate pd rows []))" by (rule distinct_accumulate) simp
  then show ?thesis unfolding groupby_sum_fst by (simp add: distinct_map)
qed

lemma groupby_sum_sorted: "sorted (map fst (groupby_sum pd rows))"
  unfolding groupby_sum_fst by simp

lemma groupby_sum_total:
  assumes "(k, v) \<in> set (groupby_sum pd rows)"
  shows "v = running_sum pd (map snd [p \<leftarrow> rows. fst p = Some k])"
proof -
  from assms obtain s where s: "(k, s) \<in> set (accumulate pd rows [])" and v: "v = sum_value pd s"
    by (auto simp: groupby_sum_def)
  have "distinct (map fst (accumulate pd rows []))" by (rule distinct_accumulate) simp
  with s have "map_of (accumulate pd rows []) k = Some s" by simp
  then have "group_state pd (accumulate pd rows []) k = s" by (simp add: group_state_def)
  then have "s = foldl (sum_step pd) (sum_init pd) (map snd [p \<leftarrow> rows. fst p = Some k])"
    using state_accumulate[of pd rows "[]" k] by simp
  then show ?thesis using v by (simp add: running_sum_def)
qed

lemma annual_row_fields [simp]:
  "row_key (annual_row (k, v)) = k" "annual_rainfall_mm (annual_row (k, v)) = v"
  "rain_source_name (annual_row (k, v)) = ''Daily District-wise Rainfall Data (Aggregated to Annual)''"
  "rain_source_url (annual_row (k, v)) = RAIN_API_URL"
proof -
  obtain s d y where k: "k = (s, d, y)" by (cases k) auto
  show "row_key (annual_row (k, v)) = k" "annual_rainfall_mm (annual_row (k, v)) = v"
    "rain_source_name (annual_row (k, v)) = ''Daily District-wise Rainfall Data (Aggregated to Annual)''"
    "rain_source_url (annual_row (k, v)) = RAIN_API_URL"
    unfolding k by (simp_all add: row_key_def)
qed

lemma row_key_of_annual_row: "row_key (annual_row g) = fst g"
  by (cases g) simp

lemma row_key_annual_row: "row_key \<circ> annual_row = fst"
  by (rule ext) (simp add: row_key_of_annual_row)

lemma keyed_values:
  "map snd [p \<leftarrow> map (\<lambda>r. (key_of pd r, f r)) df. fst p = Some k]
     = map f [r \<leftarrow> df. key_of pd r = Some k]"
  by (induction df) auto

lemma rainfall_keys:
  "map row_key (process_rainfall_rows pd df) =
     map fst (groupby_sum pd (map (\<lambda>r. (key_of pd r, rainfall_mm pd (Avg_rainfall r))) df))"
  by (simp add: process_rainfall_rows_def row_key_annual_row)

lemma rainfall_keys_distinct: "distinct (map row_key (process_rainfall_rows pd df))"
  unfolding rainfall_keys by (rule groupby_sum_distinct)

lemma rainfall_keys_sorted: "sorted (map row_key (process_rainfall_rows pd df))"
  unfolding rainfall_keys by (rule groupby_sum_sorted)

lemma rainfall_keys_set:
  "set (map row_key (process_rainfall_rows pd df)) = {k. \<exists>r \<in> set df. key_of pd r = Some k}"
proof -
  have "set (map row_key (process_rainfall_rows pd df)) =
      fst ` set (groupby_sum pd (map (\<lambda>r. (key_of pd r, rainfall_mm pd (Avg_rainfall r))) df))"
    unfolding rainfall_keys by simp
  also have "\<dots> = {k. \<exists>v. (Some k, v) \<in> set (map (\<lambda>r. (key_of pd r, rainfall_mm pd (Avg_rainfall r))) df)}"
    by (rule groupby_sum_keys)
  also have "\<dots> = {k. \<exists>r \<in> set df. key_of pd r = Some k}" by force
  finally show ?thesis .
qed

lemma rainfall_row_total:
  assumes "row \<in> set (process_rainfall_rows pd df)"
  shows "annual_rainfall_mm row =
     running_sum pd (map (\<lambda>r. rainfall_mm pd (Avg_rainfall r)) [r \<leftarrow> df. key_of pd r = Some (row_key row)])"
    and "rain_source_name row = ''Daily District-wise Rainfall Data (Aggregated to Annual)''"
    and "rain_source_url row = RAIN_API_URL"
proof -
  from assms obtain k s where
    g: "(k, s) \<in> set (groupby_sum pd (map (\<lambda>r. (key_of pd r, rainfall_mm pd (Avg_rainfall r))) df))"
    and row: "row = annual_row (k, s)"
    by (auto simp: process_rainfall_rows_def)
  from groupby_sum_total[OF g]
  have "s = running_sum pd (map (\<lambda>r. rainfall_mm pd (Avg_rainfall r)) [r \<leftarrow> df. key_of pd r = Some k])"
    by (simp only: keyed_values)
  then show "annual_rainfall_mm row =
     running_sum pd (map (\<lambda>r. rainfall_mm pd (Avg_rainfall r)) [r \<leftarrow> df. key_of pd r = Some (row_key row)])"
    using row by simp
  show "rain_source_name row = ''Daily District-wise Rainfall Data (Aggregated to Annual)''"
    using row by simp
  show "rain_source_url row = RAIN_API_URL" using row by simp
qed

text \<open>The running sum of a column that adds in a monoid is the sum of the list in that monoid;
  for 64-bit words that is the sum of the integers whenever that sum is in the range of
  \<^verbatim>\<open>int64\<close>.\<close>

lemma foldl_plus: "foldl (+) a vs = (a::'a::monoid_add) + sum_list vs"
  by (induction vs arbitrary: a) (simp_all add: add.assoc)

lemma running_sum_additive: "running_sum (additive na ws p) vs = sum_list vs"
  by (simp add: running_sum_def additive_def foldl_plus)

lemma word_of_sum_sint: "word_of_int (sum_list (map sint xs)) = (sum_list xs :: 'a::len word)"
  by (induction xs) simp_all

lemma int64_sum_in_range:
  fixes xs :: "64 word list"
  assumes "- (2 ^ 63) \<le> sum_list (map sint xs)" "sum_list (map sint xs) < 2 ^ 63"
  shows "sint (sum_list xs) = sum_list (map sint xs)"
proof -
  let ?S = "sum_list (map sint xs)"
  have "sint (word_of_int ?S :: 64 word) = (?S + 2 ^ 63) mod 2 ^ 64 - 2 ^ 63"
    by (simp add: int_word_sint)
  moreover have "(?S + 2 ^ 63) mod 2 ^ 64 = ?S + 2 ^ 63"
    using assms by (intro mod_pos_pos_trivial) simp_all
  ultimately have "sint (word_of_int ?S :: 64 word) = ?S" by simp
  then show ?thesis by (simp only: word_of_sum_sint)
qed

lemma py_100_not_NR: "py ''100'' \<noteq> py ''NR''"
  by (simp add: py_def)

lemma parse_digits_100: "parse pandas_int64 (py ''100'') = Some 100"
  by (simp add: pandas_int64_def additive_def parse_digits_def py_def is_digit_def)

lemma parse_digits_NR: "parse pandas_int64 (py ''NR'') = None"
  by (simp add: pandas_int64_def additive_def parse_digits_def py_def is_digit_def)

lemma parse_digits_abc: "parse pandas_int64 (py ''abc'') = None"
  by (simp add: pandas_int64_def additive_def parse_digits_def py_def is_digit_def)

lemma strip_Goa:
  "isspace pd = python_isspace \<Longrightarrow> strip pd (py ''Goa'') = py ''Goa''"
  "isspace pd = python_isspace \<Longrightarrow> strip pd (py ''Panaji'') = py ''Panaji''"
  by (simp_all add: strip_def py_def python_isspace_def)

lemma isspace_pandas_int64: "isspace pandas_int64 = python_isspace"
  by (simp add: pandas_int64_def additive_def)

lemma key_of_goa_row: "key_of pandas_int64 (goa_row c) = Some (py ''Goa'', py ''Panaji'', 2019)"
  by (simp add: key_of_def goa_row_def clean_str_def strip_Goa isspace_pandas_int64)

lemma key_of_no_year_row: "key_of pandas_int64 no_year_row = None"
  by (simp add: key_of_def no_year_row_def split: option.splits)

lemma running_sum_pandas_int64: "running_sum pandas_int64 vs = sum_list vs"
  unfolding pandas_int64_def by (rule running_sum_additive)

lemma sum_pandas_int64:
  "sum_init pandas_int64 = 0" "sum_step pandas_int64 = (+)" "sum_value pandas_int64 = (\<lambda>s. s)"
  by (simp_all add: pandas_int64_def additive_def)

lemma Avg_rainfall_goa_row: "Avg_rainfall (goa_row c) = c"
  by (simp add: goa_row_def)

text \<open>
  Claim C1 says that the rainfall output has exactly one row for every (state, district, year)
  triple that occurs in the input, and that the annual rainfall of a row is the exact sum of
  the values of its group. Both fail. An input row whose year is missing is left out by the
  grouping, so a table that consists of one such row gives an empty output. And an \<^verbatim>\<open>int64\<close>
  column is summed with wrap-around: two rows of one group with the value \<open>2\<^sup>6\<^sup>2\<close> each give the
  annual rainfall \<open>- 2\<^sup>6\<^sup>3\<close>, not \<open>2\<^sup>6\<^sup>3\<close>.
\<close>

theorem row_without_year_has_no_group:
  "process_rainfall_rows pandas_int64 [no_year_row] = []
   \<and> map (sint \<circ> annual_rainfall_mm)
        (process_rainfall_rows pandas_int64
           [goa_row (Num 4611686018427387904), goa_row (Num 4611686018427387904)])
      = [- 9223372036854775808]"
proof -
  have a: "process_rainfall_rows pandas_int64 [no_year_row] = []"
    by (simp add: process_rainfall_rows_def groupby_sum_def key_of_no_year_row)
  have b: "process_rainfall_rows pandas_int64
           [goa_row (Num 4611686018427387904), goa_row (Num 4611686018427387904)]
      = [annual_row ((py ''Goa'', py ''Panaji'', 2019), 4611686018427387904 + 4611686018427387904)]"
    by (simp add: process_rainfall_rows_def groupby_sum_def key_of_goa_row rainfall_mm_def
        replace_NR_def Avg_rainfall_goa_row sum_pandas_int64)
  show ?thesis unfolding b using a by simp
qed

text \<open>
  Claim C1 as amended. For every raw rainfall table, whatever the version of pandas and the
  type of the rainfall column: a row has a key when its year is present and its state and
  district are still present after \<^verbatim>\<open>.astype(str).str.strip()\<close>, and the key is the trimmed
  state, the trimmed district and the year. The output has exactly one row for each distinct
  key among the input rows that have one (the keys of the output rows are pairwise different,
  and they are exactly the keys of those input rows), sorted by key; the rows without a key are
  left out. The \<^verbatim>\<open>annual_rainfall_mm\<close> of an output row is the running sum, as the column
  computes it, of the repaired rainfall values (sentinel, unparseable and missing values
  counting 0) of the input rows with its key, taken in the order of the input. Where the
  running sum is the addition of a monoid that is the sum of these values in the monoid; for an
  \<^verbatim>\<open>int64\<close> column it is the sum of the integers whenever that sum lies between \<open>- 2\<^sup>6\<^sup>3\<close> and
  \<open>2\<^sup>6\<^sup>3 - 1\<close>, and it wraps around otherwise. Nothing is claimed about the rounding of a
  \<^verbatim>\<open>float64\<close> column beyond its being the column's own running sum.
\<close>

theorem annual_rainfall_per_key:
  fixes pd :: "('n::zero, 's) pandas" and df :: "('y::linorder, 'n) raw_rain_row list"
    and p :: "pystr \<Rightarrow> 'm::monoid_add option" and vs :: "'m list"
    and p64 :: "pystr \<Rightarrow> 64 word option" and xs :: "64 word list"
  shows
  "distinct (map row_key (process_rainfall_rows pd df))
   \<and> set (map row_key (process_rainfall_rows pd df)) = {k. \<exists>r \<in> set df. key_of pd r = Some k}
   \<and> sorted (map row_key (process_rainfall_rows pd df))
   \<and> (\<forall>row \<in> set (process_rainfall_rows pd df).
         annual_rainfall_mm row =
           running_sum pd (map (\<lambda>r. rainfall_mm pd (Avg_rainfall r))
                              [r \<leftarrow> df. key_of pd r = Some (row_key row)]))
   \<and> running_sum (additive na ws p) vs = sum_list vs
   \<and> (- (2 ^ 63) \<le> sum_list (map sint xs) \<and> sum_list (map sint xs) < 2 ^ 63 \<longrightarrow>
        sint (running_sum (additive na ws p64) xs) = sum_list (map sint xs))"
proof -
  have "- (2 ^ 63) \<le> sum_list (map sint xs) \<and> sum_list (map sint xs) < 2 ^ 63 \<longrightarrow>
        sint (running_sum (additive na ws p64) xs) = sum_list (map sint xs)"
    unfolding running_sum_additive using int64_sum_in_range[of xs] by blast
  then show ?thesis
    using rainfall_keys_distinct[of pd df] rainfall_keys_set[of pd df]
      rainfall_keys_sorted[of pd df] rainfall_row_total(1)[of _ pd df]
      running_sum_additive[of na ws p vs]
    by blast
qed

theorem annual_rainfall_per_key_witness:
  "map row_key (process_rainfall_rows pandas_int64
          [goa_row (Str (py ''100'')), goa_row (Str (py ''NR'')), no_year_row])
     = [(py ''Goa'', py ''Panaji'', 2019)]
   \<and> map (sint \<circ> annual_rainfall_mm) (process_rainfall_rows pandas_int64
          [goa_row (Str (py ''100'')), goa_row (Str (py ''NR'')), no_year_row]) = [100]"
proof -
  let ?df = "[goa_row (Str (py ''100'')), goa_row (Str (py ''NR'')), no_year_row]"
  let ?out = "process_rainfall_rows pandas_int64 ?df"
  let ?k = "(py ''Goa'', py ''Panaji'', 2019::int)"
  note inst = annual_rainfall_per_key[where pd = pandas_int64 and df = ?df
      and na = "Some (py ''nan'')" and ws = python_isspace and p = parse_digits
      and vs = "[100, 0]" and ?p64.0 = parse_digits and xs = "[100, 0]"]
  have keys: "{k. \<exists>r \<in> set ?df. key_of pandas_int64 r = Some k} = {?k}"
    by (auto simp: key_of_goa_row key_of_no_year_row)
  have a: "set (map row_key ?out) = {?k}"
    using inst keys by simp
  have d: "distinct (map row_key ?out)" using inst by blast
  have "length (map row_key ?out) = card (set (map row_key ?out))"
    using distinct_card[OF d] by simp
  then have len: "length ?out = 1" unfolding a by simp
  then obtain row where out: "?out = [row]"
    by (cases ?out) auto
  have k: "row_key row = ?k" using a unfolding out by simp
  have grp: "[r \<leftarrow> ?df. key_of pandas_int64 r = Some ?k]
      = [goa_row (Str (py ''100'')), goa_row (Str (py ''NR''))]"
    by (simp add: key_of_goa_row key_of_no_year_row)
  have vals: "rainfall_mm pandas_int64 (Avg_rainfall (goa_row (Str (py ''100'')))) = 100"
    "rainfall_mm pandas_int64 (Avg_rainfall (goa_row (Str (py ''NR'')))) = 0"
    by (simp_all add: rainfall_mm_def replace_NR_def Avg_rainfall_goa_row parse_digits_100
        py_100_not_NR)
  have "row \<in> set ?out" unfolding out by simp
  with inst have "annual_rainfall_mm row =
      running_sum pandas_int64 (map (\<lambda>r. rainfall_mm pandas_int64 (Avg_rainfall r))
         [r \<leftarrow> ?df. key_of pandas_int64 r = Some (row_key row)])"
    by blast
  then have v: "annual_rainfall_mm row = running_sum pandas_int64 [100, 0]"
    unfolding k grp using vals by simp
  have "- (2 ^ 63) \<le> sum_list (map sint [100, 0 :: 64 word])
      \<and> sum_list (map sint [100, 0 :: 64 word]) < 2 ^ 63" by simp
  with inst have "sint (running_sum pandas_int64 [100, 0]) = sum_list (map sint [100, 0 :: 64 word])"
    unfolding pandas_int64_def by blast
  then have "sint (annual_rainfall_mm row) = 100" using v by simp
  then show ?thesis using k unfolding out by simp
qed

lemma rainfall_mm_cases:
  "rainfall_mm pd (Str (py ''NR'')) = 0" "rainfall_mm pd (Num v) = v" "rainfall_mm pd NaN = 0"
  "s \<noteq> py ''NR'' \<Longrightarrow> rainfall_mm pd (Str s) = (case parse pd s of None \<Rightarrow> 0 | Some x \<Rightarrow> x)"
  by (simp_all add: rainfall_mm_def replace_NR_def split: option.splits)

lemma goa_example:
  fixes pd :: "('n::zero, 's) pandas"
  assumes "parse pd (py ''100'') = Some x" "isspace pd = python_isspace"
  shows "process_rainfall_rows pd
           [\<lparr>State = Some (py ''Goa''), District = Some (py ''Panaji''), Year = Some (2019::int),
             Avg_rainfall = Str (py ''100'')\<rparr>,
            \<lparr>State = Some (py ''Goa''), District = Some (py ''Panaji''), Year = Some 2019,
             Avg_rainfall = Str (py ''NR'')\<rparr>]
         = [\<lparr>rain_state = py ''Goa'', rain_district = py ''Panaji'', rain_year = 2019,
             annual_rainfall_mm = running_sum pd [x, 0],
             rain_source_name = ''Daily District-wise Rainfall Data (Aggregated to Annual)'',
             rain_source_url = RAIN_API_URL\<rparr>]"
  using assms
  by (simp add: process_rainfall_rows_def groupby_sum_def key_of_def clean_str_def strip_Goa
      rainfall_mm_def replace_NR_def py_100_not_NR running_sum_def)

lemma running_sum_with_zero:
  fixes y :: "'m::monoid_add"
  shows "running_sum (additive na ws p) [y, 0] = y"
  by (simp add: running_sum_additive)

text \<open>
  Claim C8 says that in every designated numeric column the known sentinel strings are mapped
  to zero. The only sentinel the code knows is \<^verbatim>\<open>NR\<close>, and it is replaced in the rainfall
  column only: in the crop table a production value \<^verbatim>\<open>NR\<close> is coerced to missing like any
  other text that is no number, and the row is dropped.
\<close>

theorem sentinel_not_mapped_in_crop_table:
  "production_tonnes (clean_crop_row pandas_int64 nr_crop_row) = None
   \<and> process_crop_rows pandas_int64 [nr_crop_row] = ([], 1)"
  by (simp add: process_crop_rows_def clean_crop_row_def nr_crop_row_def punjab_row_def parse_digits_NR)

text \<open>
  Claim C8 as amended. In the rainfall column the sentinel \<^verbatim>\<open>NR\<close> becomes 0, a number stays,
  and every other value (a missing field, a text that is no number) becomes missing and is then
  filled with 0. In the two numeric columns of the crop table (area, production) there is no
  sentinel and no filling: a number stays, a text becomes what the conversion gives, missing if
  it is no number, and a missing field stays missing. The repair functions are total: no value
  raises an error. In particular, two rainfall rows for Goa, Panaji, 2019 with the values
  \<^verbatim>\<open>100\<close> and \<^verbatim>\<open>NR\<close> give one output row whose annual rainfall is the running sum of the number
  \<^verbatim>\<open>100\<close> stands for and 0, which is that number where the running sum is the addition of a
  monoid.
\<close>

theorem numeric_repair:
  fixes pd :: "('n::zero, 's) pandas" and v x :: 'n and y :: "'m::monoid_add"
    and p :: "pystr \<Rightarrow> 'm option" and r :: "('y, 'n) raw_crop_row"
  shows
  "rainfall_mm pd (Str (py ''NR'')) = 0
   \<and> rainfall_mm pd (Num v) = v
   \<and> rainfall_mm pd NaN = 0
   \<and> (s \<noteq> py ''NR'' \<longrightarrow> rainfall_mm pd (Str s) = (case parse pd s of None \<Rightarrow> 0 | Some z \<Rightarrow> z))
   \<and> production_tonnes (clean_crop_row pd r) =
        (case production_raw r of Num z \<Rightarrow> Some z | Str t \<Rightarrow> parse pd t | NaN \<Rightarrow> None)
   \<and> area_hectares (clean_crop_row pd r) =
        (case area_raw r of Num z \<Rightarrow> Some z | Str t \<Rightarrow> parse pd t | NaN \<Rightarrow> None)
   \<and> (parse pd (py ''100'') = Some x \<and> isspace pd = python_isspace \<longrightarrow>
        process_rainfall_rows pd
           [\<lparr>State = Some (py ''Goa''), District = Some (py ''Panaji''), Year = Some (2019::int),
             Avg_rainfall = Str (py ''100'')\<rparr>,
            \<lparr>State = Some (py ''Goa''), District = Some (py ''Panaji''), Year = Some 2019,
             Avg_rainfall = Str (py ''NR'')\<rparr>]
         = [\<lparr>rain_state = py ''Goa'', rain_district = py ''Panaji'', rain_year = 2019,
             annual_rainfall_mm = running_sum pd [x, 0],
             rain_source_name = ''Daily District-wise Rainfall Data (Aggregated to Annual)'',
             rain_source_url = RAIN_API_URL\<rparr>])
   \<and> running_sum (additive na ws p) [y, 0] = y"
proof (intro conjI impI, goal_cases)
  case 1 show ?case by (rule rainfall_mm_cases)
next
  case 2 show ?case by (rule rainfall_mm_cases)
next
  case 3 show ?case by (rule rainfall_mm_cases)
next
  case 4 then show ?case by (rule rainfall_mm_cases)
next
  case 5 show ?case by (cases "production_raw r") (simp_all add: clean_crop_row_def)
next
  case 6 show ?case by (cases "area_raw r") (simp_all add: clean_crop_row_def)
next
  case 7 then show ?case by (elim conjE) (rule goa_example)
next
  case 8 show ?case by (rule running_sum_with_zero)
qed

theorem numeric_repair_witness:
  "rainfall_mm pandas_int64 (Str (py ''abc'')) = 0
   \<and> process_rainfall_rows pandas_int64 [goa_row (Str (py ''100'')), goa_row (Str (py ''NR''))]
      = [\<lparr>rain_state = py ''Goa'', rain_district = py ''Panaji'', rain_year = 2019,
          annual_rainfall_mm = 100,
          rain_source_name = ''Daily District-wise Rainfall Data (Aggregated to Annual)'',
          rain_source_url = RAIN_API_URL\<rparr>]"
proof -
  note inst = numeric_repair[where pd = pandas_int64 and v = 0 and s = "py ''abc''"
      and r = punjab_row and x = 100 and na = "Some (py ''nan'')" and ws = python_isspace
      and p = parse_digits and y = 100]
  have ne: "py ''abc'' \<noteq> py ''NR''" by (simp add: py_def)
  from inst ne have a: "rainfall_mm pandas_int64 (Str (py ''abc'')) = 0"
    by (simp add: parse_digits_abc)
  have s: "running_sum pandas_int64 [100, 0] = 100"
    using inst unfolding pandas_int64_def by blast
  from inst parse_digits_100 isspace_pandas_int64 have b:
    "process_rainfall_rows pandas_int64 [goa_row (Str (py ''100'')), goa_row (Str (py ''NR''))]
      = [\<lparr>rain_state = py ''Goa'', rain_district = py ''Panaji'', rain_year = 2019,
          annual_rainfall_mm = 100,
          rain_source_name = ''Daily District-wise Rainfall Data (Aggregated to Annual)'',
          rain_source_url = RAIN_API_URL\<rparr>]"
    by (simp add: goa_row_def s)
  show ?thesis using a b by blast
qed
end
